theory Spec2Isabelle
  imports Complex_Main "HOL-Library.Log_Nat"
begin

section \<open>Data model of the route engine (src/API_/route_API.py)\<close>

text \<open>
  The Python code works on dictionaries used as structs, on unbounded integers and on
  floats. Integers are \<open>int\<close>. Floats are values of a type parameter \<open>'f\<close>; every
  operation the code applies to a float is a field of the environment record \<open>env\<close>
  below, together with the two functions of the external \<open>polyline\<close> package. A
  theorem stated for an arbitrary environment therefore holds whatever the float
  arithmetic does (rounding, infinities, NaN). Exceptions are values of \<open>error\<close>.
\<close>

datatype error = TypeError | IndexError | KeyError | ZeroDivisionError | ValueError | OverflowError

record 'f location =
  lat :: 'f
  lng :: 'f

record 'f env =
  decode :: "string \<Rightarrow> ('f \<times> 'f) list"     \<comment> \<open>\<open>polyline.decode\<close>\<close>
  encode :: "('f \<times> 'f) list \<Rightarrow> string"     \<comment> \<open>\<open>polyline.encode\<close>\<close>
  f_zero :: 'f                               \<comment> \<open>the literal \<open>0.0\<close>\<close>
  f_inf :: 'f                                \<comment> \<open>\<open>float("inf")\<close>\<close>
  f_of_int :: "int \<Rightarrow> 'f"                    \<comment> \<open>an int operand of a mixed float operation\<close>
  f_add :: "'f \<Rightarrow> 'f \<Rightarrow> 'f"
  f_sub :: "'f \<Rightarrow> 'f \<Rightarrow> 'f"
  f_mul :: "'f \<Rightarrow> 'f \<Rightarrow> 'f"
  f_div :: "'f \<Rightarrow> 'f \<Rightarrow> 'f"
  f_sq :: "'f \<Rightarrow> 'f"                          \<comment> \<open>\<open>x**2\<close>\<close>
  f_sqrt :: "'f \<Rightarrow> 'f"                        \<comment> \<open>\<open>math.sqrt\<close>\<close>
  f_lt :: "'f \<Rightarrow> 'f \<Rightarrow> bool"                 \<comment> \<open>\<open>a < b\<close>; \<open>a > b\<close> is \<open>f_lt b a\<close>\<close>
  int_truediv :: "int \<Rightarrow> int \<Rightarrow> 'f"            \<comment> \<open>\<open>a / b\<close> on two ints, divisor not zero\<close>
  f_to_int :: "'f \<Rightarrow> error + int"             \<comment> \<open>\<open>int(x)\<close>: truncation, raises on inf and NaN\<close>
  format_1f :: "'f \<Rightarrow> string"                 \<comment> \<open>\<open>"{:.1f}".format(x)\<close>\<close>

record 'f step =
  step_start_location :: "'f location"
  step_end_location :: "'f location"
  step_distance :: int
  step_duration :: "int option"              \<comment> \<open>\<open>None\<close> in a partial step\<close>
  step_polyline :: string

record 'f stop_point =
  point_lat :: 'f
  point_lng :: 'f
  point_distance :: int

record 'f route =
  route_bounds :: "'f location \<times> 'f location"
  route_start_address :: string
  route_start_location :: "'f location"
  route_end_address :: string
  route_end_location :: "'f location"
  route_distance :: int
  route_duration :: int
  route_steps :: "'f step list"
  route_distance_text :: string
  route_duration_text :: string
  route_polyline :: string
  route_summary :: string
  route_warnings :: "string list"
  route_waypoint_order :: "int list"

text \<open>The raw provider response, with \<open>x["distance"]["value"]\<close> and the like flattened.\<close>

record 'f raw_step =
  raw_step_start_location :: "'f location"
  raw_step_end_location :: "'f location"
  raw_step_distance :: int
  raw_step_duration :: int
  raw_step_polyline :: string

record 'f raw_leg =
  leg_start_address :: string
  leg_start_location :: "'f location"
  leg_end_address :: string
  leg_end_location :: "'f location"
  leg_distance :: int
  leg_duration :: int
  leg_steps :: "'f raw_step list"

record 'f raw_route =
  raw_bounds :: "'f location \<times> 'f location"
  raw_legs :: "'f raw_leg list"
  raw_overview_polyline :: string
  raw_summary :: string
  raw_warnings :: "string list"
  raw_waypoint_order :: "int list"

section \<open>Text formatting\<close>

text \<open>\<open>"{}".format(n)\<close> for an int: its decimal digits, with a minus sign when negative.\<close>

definition digit_char :: "nat \<Rightarrow> char" where
  "digit_char d = char_of (48 + d)"

fun str_nat :: "nat \<Rightarrow> string" where
  "str_nat n = (if n < 10 then [digit_char n] else str_nat (n div 10) @ [digit_char (n mod 10)])"

declare str_nat.simps [simp del]

definition str_int :: "int \<Rightarrow> string" where
  "str_int i = (if i < 0 then CHR ''-'' # str_nat (nat (- i)) else str_nat (nat i))"

definition SECONDS_IN_HOUR :: int where "SECONDS_IN_HOUR = 3600"
definition SECONDS_IN_MINUTE :: int where "SECONDS_IN_MINUTE = 60"
definition METERS_IN_KILOMETERS :: int where "METERS_IN_KILOMETERS = 1000"

text \<open>
  \<open>__convert_seconds_to_duration_text\<close>: the text is built by appending, and replaced
  at the end when both counts are zero. Python's \<open>//\<close> and \<open>%\<close> on ints are the
  flooring \<open>div\<close> and \<open>mod\<close> of \<open>int\<close>.
\<close>

definition convert_seconds_to_duration_text :: "int \<Rightarrow> string" where
  "convert_seconds_to_duration_text seconds =
     (let hours = seconds div SECONDS_IN_HOUR;
          seconds' = seconds mod SECONDS_IN_HOUR;
          minutes = seconds' div SECONDS_IN_MINUTE;
          t0 = [];
          t1 = (if hours > 0
                then (let a = t0 @ str_int hours @ '' hour'';
                          b = (if hours > 1 then a @ ''s'' else a)
                      in if minutes > 0 then b @ '' '' else b)
                else t0);
          t2 = (if minutes > 0
                then (let a = t1 @ str_int minutes @ '' min''
                      in if minutes > 1 then a @ ''s'' else a)
                else t1)
      in if hours = 0 \<and> minutes = 0 then ''0 mins'' else t2)"

text \<open>\<open>__convert_meters_to_distance_text\<close>.\<close>

definition convert_meters_to_distance_text :: "'f env \<Rightarrow> int \<Rightarrow> string" where
  "convert_meters_to_distance_text E meters =
     (if meters \<ge> 99
      then (let kilometers = meters div METERS_IN_KILOMETERS
            in if kilometers < 100
               then format_1f E (int_truediv E meters METERS_IN_KILOMETERS) @ '' km''
               else str_int kilometers @ '' km'')
      else str_int meters @ '' m'')"

section \<open>Route model builder\<close>

text \<open>
  \<open>__parse_route\<close>. \<open>raw_route["legs"][0]\<close> raises IndexError on an empty leg list. The
  totals are accumulated from the legs' own values, the steps from the legs' steps.
\<close>

definition parse_step :: "'f raw_step \<Rightarrow> 'f step" where
  "parse_step raw_step =
     \<lparr> step_start_location = raw_step_start_location raw_step,
       step_end_location = raw_step_end_location raw_step,
       step_distance = raw_step_distance raw_step,
       step_duration = Some (raw_step_duration raw_step),
       step_polyline = raw_step_polyline raw_step \<rparr>"

fun parse_leg_steps :: "'f raw_step list \<Rightarrow> 'f step list \<Rightarrow> 'f step list" where
  "parse_leg_steps [] steps = steps"
| "parse_leg_steps (raw_step # rest) steps = parse_leg_steps rest (steps @ [parse_step raw_step])"

fun parse_legs :: "'f raw_leg list \<Rightarrow> int \<times> int \<times> 'f step list \<Rightarrow> int \<times> int \<times> 'f step list" where
  "parse_legs [] acc = acc"
| "parse_legs (leg # rest) (total_distance, total_duration, steps) =
     parse_legs rest (total_distance + leg_distance leg, total_duration + leg_duration leg,
                      parse_leg_steps (leg_steps leg) steps)"

definition parse_route :: "'f env \<Rightarrow> 'f raw_route \<Rightarrow> error + 'f route" where
  "parse_route E raw =
     (case raw_legs raw of
        [] \<Rightarrow> Inl IndexError
      | first_leg # _ \<Rightarrow>
          (let last_leg = last (raw_legs raw);
               (total_distance, total_duration, steps) = parse_legs (raw_legs raw) (0, 0, [])
           in Inr \<lparr> route_bounds = raw_bounds raw,
                    route_start_address = leg_start_address first_leg,
                    route_start_location = leg_start_location first_leg,
                    route_end_address = leg_end_address last_leg,
                    route_end_location = leg_end_location last_leg,
                    route_distance = total_distance,
                    route_duration = total_duration,
                    route_steps = steps,
                    route_distance_text = convert_meters_to_distance_text E total_distance,
                    route_duration_text = convert_seconds_to_duration_text total_duration,
                    route_polyline = raw_overview_polyline raw,
                    route_summary = raw_summary raw,
                    route_warnings = raw_warnings raw,
                    route_waypoint_order = raw_waypoint_order raw \<rparr>))"

section \<open>Geometry engine\<close>

text \<open>
  \<open>__calculate_sector_lengths\<close>: the loop over \<open>range(0, len(coordinates) - 1)\<close> reads
  \<open>coordinates[ind]\<close> and \<open>coordinates[ind+1]\<close>, here the first two elements of the
  remaining list. It returns the sector lengths and their running sum.
\<close>

fun sector_lengths_loop :: "'f env \<Rightarrow> ('f \<times> 'f) list \<Rightarrow> 'f list \<times> 'f \<Rightarrow> 'f list \<times> 'f" where
  "sector_lengths_loop E (a # b # rest) (sector_lengths, polyline_length) =
     (let x_sector_length = f_sub E (fst a) (fst b);
          y_sector_length = f_sub E (snd a) (snd b);
          sector_length = f_sqrt E (f_add E (f_sq E x_sector_length) (f_sq E y_sector_length))
      in sector_lengths_loop E (b # rest)
           (sector_lengths @ [sector_length], f_add E polyline_length sector_length))"
| "sector_lengths_loop E [a] acc = acc"
| "sector_lengths_loop E [] acc = acc"

definition calculate_sector_lengths :: "'f env \<Rightarrow> ('f \<times> 'f) list \<Rightarrow> 'f list \<times> 'f" where
  "calculate_sector_lengths E coordinates = sector_lengths_loop E coordinates ([], f_zero E)"

text \<open>\<open>__locate_coordinate\<close>: the index of the first vertex with the smallest distance.\<close>

fun locate_coordinate_loop ::
  "'f env \<Rightarrow> 'f location \<Rightarrow> nat \<Rightarrow> ('f \<times> 'f) list \<Rightarrow> nat option \<times> 'f \<Rightarrow> nat option \<times> 'f" where
  "locate_coordinate_loop E locating_coordinate ind [] acc = acc"
| "locate_coordinate_loop E locating_coordinate ind (coordinate # rest)
       (closest_coordinate_ind, smallest_distance) =
     (let x_distance = f_sub E (lat locating_coordinate) (fst coordinate);
          y_distance = f_sub E (lng locating_coordinate) (snd coordinate);
          distance = f_sqrt E (f_add E (f_sq E x_distance) (f_sq E y_distance))
      in if f_lt E distance smallest_distance
         then locate_coordinate_loop E locating_coordinate (Suc ind) rest (Some ind, distance)
         else locate_coordinate_loop E locating_coordinate (Suc ind) rest
                (closest_coordinate_ind, smallest_distance))"

definition locate_coordinate :: "'f env \<Rightarrow> ('f \<times> 'f) list \<Rightarrow> 'f location \<Rightarrow> nat option \<times> 'f" where
  "locate_coordinate E coordinates locating_coordinate =
     locate_coordinate_loop E locating_coordinate 0 coordinates (None, f_inf E)"

text \<open>\<open>__locate_step\<close>.\<close>

fun locate_step_loop ::
  "'f env \<Rightarrow> 'f location \<Rightarrow> nat \<Rightarrow> 'f step list \<Rightarrow> nat option \<times> 'f \<Rightarrow> nat option \<times> 'f" where
  "locate_step_loop E coordinate ind [] acc = acc"
| "locate_step_loop E coordinate ind (step # rest) (step_ind, min_length_to_coordinate) =
     (let (coordinate_ind, length_to_coordinate) =
            locate_coordinate E (decode E (step_polyline step)) coordinate
      in if coordinate_ind \<noteq> None \<and> f_lt E length_to_coordinate min_length_to_coordinate
         then locate_step_loop E coordinate (Suc ind) rest (Some ind, length_to_coordinate)
         else locate_step_loop E coordinate (Suc ind) rest (step_ind, min_length_to_coordinate))"

definition locate_step :: "'f env \<Rightarrow> 'f step list \<Rightarrow> 'f location \<Rightarrow> nat option" where
  "locate_step E steps coordinate = fst (locate_step_loop E coordinate 0 steps (None, f_inf E))"

text \<open>
  \<open>__calculate_left_step\<close>. \<open>len(polyline_coordinates) - 1\<close> is \<open>-1\<close> for an empty
  polyline, so the comparison with the located index is made on \<open>int\<close>. The located
  index is a position of the list, and \<open>polyline_coordinates[-1]\<close> is its last element.
\<close>

definition calculate_left_step :: "'f env \<Rightarrow> 'f step \<Rightarrow> 'f location \<Rightarrow> error + 'f step option" where
  "calculate_left_step E step coordinate =
     (let polyline_coordinates = decode E (step_polyline step);
          (sector_lengths, polyline_length) = calculate_sector_lengths E polyline_coordinates;
          (coordinate_ind, _) = locate_coordinate E polyline_coordinates coordinate
      in case coordinate_ind of
           None \<Rightarrow> Inr None
         | Some ci \<Rightarrow>
             if int ci \<noteq> int (length polyline_coordinates) - 1 \<and> step_distance step > 0
                \<and> f_lt E (f_of_int E 0) polyline_length
             then (let distance_in_coordinate = foldl (f_add E) (f_zero E) (drop ci sector_lengths)
                   in if f_lt E (f_zero E) distance_in_coordinate
                      then (case f_to_int E (f_mul E (f_div E (f_of_int E (step_distance step))
                                                         polyline_length) distance_in_coordinate) of
                              Inl e \<Rightarrow> Inl e
                            | Inr d \<Rightarrow>
                                Inr (Some \<lparr> step_start_location =
                                               \<lparr> lat = fst (polyline_coordinates ! ci),
                                                 lng = snd (polyline_coordinates ! ci) \<rparr>,
                                            step_end_location =
                                               \<lparr> lat = fst (last polyline_coordinates),
                                                 lng = snd (last polyline_coordinates) \<rparr>,
                                            step_distance = d,
                                            step_duration = None,
                                            step_polyline = encode E (drop ci polyline_coordinates) \<rparr>))
                      else Inr None)
             else Inr None)"

text \<open>\<open>__init_stop_point\<close>.\<close>

definition init_stop_point :: "'f \<Rightarrow> 'f \<Rightarrow> int \<Rightarrow> 'f stop_point" where
  "init_stop_point lat' lng' distance =
     \<lparr> point_lat = lat', point_lng = lng', point_distance = distance \<rparr>"

text \<open>
  \<open>__aproximate_stop_points\<close>. The variables the inner loop updates are the fields of
  \<open>scan\<close>. The loop runs over \<open>enumerate(sector_lengths)\<close> and reads
  \<open>coordinates[ind]\<close>: the pairs of \<open>zip coordinates sector_lengths\<close>, since there
  is one sector less than there are vertices. \<open>break\<close> returns the state.
\<close>

record 'f scan =
  points :: "'f stop_point list"
  new_distance :: int
  current_polyline :: 'f
  current_percent :: 'f
  stop_point_on_polyline :: 'f

fun stop_points_loop ::
  "'f env \<Rightarrow> 'f step \<Rightarrow> int \<Rightarrow> bool \<Rightarrow> 'f \<Rightarrow> 'f \<Rightarrow> (('f \<times> 'f) \<times> 'f) list \<Rightarrow> 'f scan
     \<Rightarrow> error + 'f scan" where
  "stop_points_loop E step full_distance only_first next_stop_point_percent
       next_stop_point_length [] s = Inr s"
| "stop_points_loop E step full_distance only_first next_stop_point_percent
       next_stop_point_length ((coordinate, sector_length) # rest) s =
     (let cp = f_add E (current_polyline s) sector_length
      in if f_lt E (stop_point_on_polyline s) cp
         then (case f_to_int E (f_mul E (current_percent s) (f_of_int E (step_distance step))) of
                 Inl e \<Rightarrow> Inl e
               | Inr k \<Rightarrow>
                   (let point = init_stop_point (fst coordinate) (snd coordinate)
                                  (full_distance - step_distance step + k);
                        s' = \<lparr> points = points s @ [point],
                               new_distance = full_distance - point_distance point,
                               current_polyline = cp,
                               current_percent = f_add E (current_percent s) next_stop_point_percent,
                               stop_point_on_polyline =
                                 f_add E (stop_point_on_polyline s) next_stop_point_length \<rparr>
                    in if only_first then Inr s'
                       else stop_points_loop E step full_distance only_first
                              next_stop_point_percent next_stop_point_length rest s'))
         else stop_points_loop E step full_distance only_first next_stop_point_percent
                next_stop_point_length rest (s\<lparr> current_polyline := cp \<rparr>))"

definition aproximate_stop_points ::
  "'f env \<Rightarrow> 'f step \<Rightarrow> int \<Rightarrow> int \<Rightarrow> int \<Rightarrow> bool \<Rightarrow> error + 'f stop_point list \<times> int" where
  "aproximate_stop_points E step distance distance_between_points full_distance only_first =
     (let coordinates = decode E (step_polyline step);
          scanned =
            (if step_distance step > 0 \<and> length coordinates > 0
             then (let (sector_lengths, polyline_length) = calculate_sector_lengths E coordinates;
                       first_stop_point_percent =
                         int_truediv E \<bar>distance_between_points - (distance - step_distance step)\<bar>
                           (step_distance step);
                       next_stop_point_percent =
                         int_truediv E distance_between_points (step_distance step)
                   in stop_points_loop E step full_distance only_first next_stop_point_percent
                        (f_mul E next_stop_point_percent polyline_length)
                        (zip coordinates sector_lengths)
                        \<lparr> points = [], new_distance = 0, current_polyline = f_zero E,
                          current_percent = first_stop_point_percent,
                          stop_point_on_polyline = f_mul E first_stop_point_percent polyline_length \<rparr>)
             else Inr \<lparr> points = [], new_distance = 0, current_polyline = f_zero E,
                        current_percent = f_zero E, stop_point_on_polyline = f_zero E \<rparr>)
      in case scanned of
           Inl e \<Rightarrow> Inl e
         | Inr s \<Rightarrow>
             if length (points s) = 0
             then Inr (points s @ [init_stop_point (lat (step_end_location step))
                                     (lng (step_end_location step)) full_distance],
                       new_distance s)
             else Inr (points s, new_distance s))"

text \<open>
  \<open>__locate_stop_points\<close> reads only \<open>route["steps"]\<close>, which is its argument here.
  \<open>traveled_distance % distance_between_points\<close> raises ZeroDivisionError for a zero
  spacing.
\<close>

definition DEFAULT_DISTANCE_BETWEEN_POINTS :: int where
  "DEFAULT_DISTANCE_BETWEEN_POINTS = 50000"

fun locate_stop_points_loop ::
  "'f env \<Rightarrow> int \<Rightarrow> bool \<Rightarrow> 'f step list \<Rightarrow> 'f stop_point list \<times> int \<times> int
     \<Rightarrow> error + 'f stop_point list \<times> int \<times> int" where
  "locate_stop_points_loop E distance_between_points only_first [] acc = Inr acc"
| "locate_stop_points_loop E distance_between_points only_first (step # rest)
       (pts, full_distance, distance) =
     (let distance' = distance + step_distance step;
          full_distance' = full_distance + step_distance step
      in if distance' \<ge> distance_between_points
         then (case aproximate_stop_points E step distance' distance_between_points
                      full_distance' only_first of
                 Inl e \<Rightarrow> Inl e
               | Inr (new_points, distance'') \<Rightarrow>
                   if only_first then Inr (pts @ new_points, full_distance', distance'')
                   else locate_stop_points_loop E distance_between_points only_first rest
                          (pts @ new_points, full_distance', distance''))
         else locate_stop_points_loop E distance_between_points only_first rest
                (pts, full_distance', distance'))"

definition locate_stop_points ::
  "'f env \<Rightarrow> 'f step list \<Rightarrow> int \<Rightarrow> int \<Rightarrow> bool \<Rightarrow> error + 'f stop_point list \<times> int \<times> int" where
  "locate_stop_points E steps distance_between_points traveled_distance only_first =
     (if distance_between_points = 0 then Inl ZeroDivisionError
      else locate_stop_points_loop E distance_between_points only_first steps
             ([], 0, traveled_distance mod distance_between_points))"

text \<open>\<open>get_stop_points\<close>.\<close>

definition get_stop_points ::
  "'f env \<Rightarrow> 'f route \<Rightarrow> int \<Rightarrow> int \<Rightarrow> bool \<Rightarrow> error + 'f stop_point list" where
  "get_stop_points E route distance_between_points traveled_distance only_first =
     (case locate_stop_points E (route_steps route) distance_between_points traveled_distance
             only_first of
        Inl e \<Rightarrow> Inl e
      | Inr (pts, _, _) \<Rightarrow> Inr pts)"

text \<open>
  \<open>get_point_on_route\<close>. The projection distance is \<open>int(time * speed)\<close> when
  \<open>distance\<close> is \<open>None\<close>; multiplying with \<open>None\<close> raises TypeError. The reduced route
  is the dictionary \<open>{"steps": route["steps"][step_ind + 1:]}\<close>, with the partial
  step inserted in front of its list when there is one.
\<close>

definition left_route :: "'f step list \<Rightarrow> nat \<Rightarrow> 'f step option \<Rightarrow> (string \<rightharpoonup> 'f step list)" where
  "left_route steps step_ind left_step_in_current_step =
     [''steps'' \<mapsto> (case left_step_in_current_step of
                       None \<Rightarrow> drop (step_ind + 1) steps
                     | Some left_step \<Rightarrow> left_step # drop (step_ind + 1) steps)]"

definition get_point_on_route ::
  "'f env \<Rightarrow> 'f route \<Rightarrow> 'f location \<Rightarrow> int option \<Rightarrow> int option \<Rightarrow> int option
     \<Rightarrow> error + 'f stop_point option \<times> bool" where
  "get_point_on_route E route coordinate distance time speed =
     (case (case distance of
              None \<Rightarrow> (case (time, speed) of
                         (Some t, Some v) \<Rightarrow> Inr (t * v)
                       | _ \<Rightarrow> Inl TypeError)
            | Some d \<Rightarrow> Inr d) of
        Inl e \<Rightarrow> Inl e
      | Inr d \<Rightarrow>
          (case locate_step E (route_steps route) coordinate of
             None \<Rightarrow> Inr (None, False)
           | Some step_ind \<Rightarrow>
               (case calculate_left_step E (route_steps route ! step_ind) coordinate of
                  Inl e \<Rightarrow> Inl e
                | Inr left_step_in_current_step \<Rightarrow>
                    (case left_route (route_steps route) step_ind left_step_in_current_step ''steps'' of
                       None \<Rightarrow> Inl KeyError
                     | Some left_steps \<Rightarrow>
                         (case locate_stop_points E left_steps d 0 True of
                            Inl e \<Rightarrow> Inl e
                          | Inr (predicted_points, full_distance, _) \<Rightarrow>
                              if length predicted_points > 0
                              then Inr (Some (hd predicted_points), False)
                              else Inr (Some \<lparr> point_lat = lat (route_end_location route),
                                               point_lng = lng (route_end_location route),
                                               point_distance = full_distance \<rparr>, True))))))"

section \<open>The specification's formatting rule\<close>

text \<open>
  The duration rule as the specification words it: \<open>"0 mins"\<close> when both counts are
  zero, otherwise the hour part and the minute part, each left out when its count is
  zero, the space standing between the two parts; a unit is plural above 1.
\<close>

definition unit_text :: "int \<Rightarrow> string \<Rightarrow> string" where
  "unit_text n unit = str_int n @ '' '' @ unit @ (if n > 1 then ''s'' else [])"

fun join_space :: "string list \<Rightarrow> string" where
  "join_space [] = []"
| "join_space [x] = x"
| "join_space (x # y # rest) = x @ '' '' @ join_space (y # rest)"

definition duration_text_spec :: "int \<Rightarrow> string" where
  "duration_text_spec seconds =
     (let hours = seconds div 3600;
          minutes = (seconds mod 3600) div 60
      in if hours = 0 \<and> minutes = 0 then ''0 mins''
         else join_space ((if hours > 0 then [unit_text hours ''hour''] else []) @
                          (if minutes > 0 then [unit_text minutes ''min''] else [])))"

text \<open>The duration a step contributes to a sum; a partial step has none.\<close>

definition step_duration_value :: "'f step \<Rightarrow> int" where
  "step_duration_value s = (case step_duration s of None \<Rightarrow> 0 | Some d \<Rightarrow> d)"

section \<open>A float environment without rounding\<close>

text \<open>
  For evaluating the engine on concrete inputs: floats as the finite reals and
  \<open>+inf\<close>, every operation exact. On the inputs evaluated below no arithmetic
  operation meets an infinite operand; such an operation is given the value \<open>PInf\<close>.
  The decoder and encoder are parameters over finite vertices.
\<close>

datatype pyfloat = Fin real | PInf

fun fin_val :: "pyfloat \<Rightarrow> real" where
  "fin_val (Fin a) = a"
| "fin_val PInf = 0"

fun x_lift2 :: "(real \<Rightarrow> real \<Rightarrow> real) \<Rightarrow> pyfloat \<Rightarrow> pyfloat \<Rightarrow> pyfloat" where
  "x_lift2 f (Fin a) (Fin b) = Fin (f a b)"
| "x_lift2 f _ _ = PInf"

fun x_lift1 :: "(real \<Rightarrow> real) \<Rightarrow> pyfloat \<Rightarrow> pyfloat" where
  "x_lift1 f (Fin a) = Fin (f a)"
| "x_lift1 f PInf = PInf"

fun x_lt :: "pyfloat \<Rightarrow> pyfloat \<Rightarrow> bool" where
  "x_lt (Fin a) (Fin b) = (a < b)"
| "x_lt (Fin a) PInf = True"
| "x_lt PInf _ = False"

definition py_trunc :: "real \<Rightarrow> int" where
  "py_trunc r = (if r \<ge> 0 then \<lfloor>r\<rfloor> else \<lceil>r\<rceil>)"

fun x_to_int :: "pyfloat \<Rightarrow> error + int" where
  "x_to_int (Fin a) = Inr (py_trunc a)"
| "x_to_int PInf = Inl OverflowError"

definition round_half_even :: "real \<Rightarrow> int" where
  "round_half_even x =
     (let f = \<lfloor>x\<rfloor>
      in if x - of_int f < 1 / 2 then f
         else if x - of_int f > 1 / 2 then f + 1
         else if even f then f else f + 1)"

fun x_format_1f :: "pyfloat \<Rightarrow> string" where
  "x_format_1f (Fin a) =
     (let t = round_half_even (\<bar>a\<bar> * 10)
      in (if a < 0 then ''-'' else []) @ str_int (t div 10) @ ''.'' @ str_int (t mod 10))"
| "x_format_1f PInf = ''inf''"

definition exact_env ::
  "(string \<Rightarrow> (real \<times> real) list) \<Rightarrow> ((real \<times> real) list \<Rightarrow> string) \<Rightarrow> pyfloat env" where
  "exact_env dec enc =
     \<lparr> decode = (\<lambda>s. map (\<lambda>(a, b). (Fin a, Fin b)) (dec s)),
       encode = (\<lambda>cs. enc (map (\<lambda>(a, b). (fin_val a, fin_val b)) cs)),
       f_zero = Fin 0,
       f_inf = PInf,
       f_of_int = (\<lambda>i. Fin (of_int i)),
       f_add = x_lift2 (+),
       f_sub = x_lift2 (-),
       f_mul = x_lift2 (*),
       f_div = x_lift2 (/),
       f_sq = x_lift1 (\<lambda>a. a ^ 2),
       f_sqrt = x_lift1 sqrt,
       f_lt = x_lt,
       int_truediv = (\<lambda>a b. Fin (of_int a / of_int b)),
       f_to_int = x_to_int,
       format_1f = x_format_1f \<rparr>"

section \<open>Sample inputs\<close>

text \<open>
  The polyline strings are standard encodings (precision 5) of the vertex lists beside
  them; any other string is taken as the empty polyline, which is what the empty string
  decodes to.
\<close>

definition sample_decode :: "string \<Rightarrow> (real \<times> real) list" where
  "sample_decode s =
     (if s = ''??_glW??_glW'' then [(0, 0), (4, 0), (4, 4)]
      else if s = ''_glW??_glW'' then [(4, 0), (4, 4)]
      else if s = ''_glW_glW?_glW'' then [(4, 4), (4, 8)]
      else if s = ''??_ibE???'' then [(0, 0), (1, 0), (1, 0)]
      else if s = ''??_ibE?~hbE?'' then [(0, 0), (1, 0), (0, 0)]
      else if s = ''??_ibE?'' then [(0, 0), (1, 0)]
      else if s = ''_ibE???'' then [(1, 0), (1, 0)]
      else if s = ''_ibE?_ibE?'' then [(1, 0), (2, 0)]
      else [])"

definition sample_encode :: "(real \<times> real) list \<Rightarrow> string" where
  "sample_encode cs =
     (if cs = [(0, 0), (4, 0), (4, 4)] then ''??_glW??_glW''
      else if cs = [(4, 0), (4, 4)] then ''_glW??_glW''
      else if cs = [(4, 4), (4, 8)] then ''_glW_glW?_glW''
      else if cs = [(0, 0), (1, 0), (1, 0)] then ''??_ibE???''
      else if cs = [(0, 0), (1, 0), (0, 0)] then ''??_ibE?~hbE?''
      else if cs = [(0, 0), (1, 0)] then ''??_ibE?''
      else if cs = [(1, 0), (1, 0)] then ''_ibE???''
      else if cs = [(1, 0), (2, 0)] then ''_ibE?_ibE?''
      else [])"

definition sample_env :: "pyfloat env" where
  "sample_env = exact_env sample_decode sample_encode"

definition loc :: "real \<Rightarrow> real \<Rightarrow> pyfloat location" where
  "loc a b = \<lparr> lat = Fin a, lng = Fin b \<rparr>"

text \<open>
  A route of one leg and two steps: from (0,0) over (4,0) to (4,4), 800 m, and from
  (4,4) to (4,8), 400 m. The leg's totals are the sums of its steps' values.
\<close>

definition sample_raw_route :: "pyfloat raw_route" where
  "sample_raw_route =
     \<lparr> raw_bounds = (loc 4 8, loc 0 0),
       raw_legs =
         [\<lparr> leg_start_address = ''A'', leg_start_location = loc 0 0,
            leg_end_address = ''B'', leg_end_location = loc 4 8,
            leg_distance = 1200, leg_duration = 120,
            leg_steps =
              [\<lparr> raw_step_start_location = loc 0 0, raw_step_end_location = loc 4 4,
                 raw_step_distance = 800, raw_step_duration = 80,
                 raw_step_polyline = ''??_glW??_glW'' \<rparr>,
               \<lparr> raw_step_start_location = loc 4 4, raw_step_end_location = loc 4 8,
                 raw_step_distance = 400, raw_step_duration = 40,
                 raw_step_polyline = ''_glW_glW?_glW'' \<rparr>] \<rparr>],
       raw_overview_polyline = ''??_glW??_glW?_glW'',
       raw_summary = ''N1'',
       raw_warnings = [],
       raw_waypoint_order = [] \<rparr>"

definition sample_steps :: "pyfloat step list" where
  "sample_steps =
     [\<lparr> step_start_location = loc 0 0, step_end_location = loc 4 4,
        step_distance = 800, step_duration = Some 80, step_polyline = ''??_glW??_glW'' \<rparr>,
      \<lparr> step_start_location = loc 4 4, step_end_location = loc 4 8,
        step_distance = 400, step_duration = Some 40, step_polyline = ''_glW_glW?_glW'' \<rparr>]"

definition sample_route :: "pyfloat route" where
  "sample_route =
     \<lparr> route_bounds = (loc 4 8, loc 0 0),
       route_start_address = ''A'',
       route_start_location = loc 0 0,
       route_end_address = ''B'',
       route_end_location = loc 4 8,
       route_distance = 1200,
       route_duration = 120,
       route_steps = sample_steps,
       route_distance_text = ''1.2 km'',
       route_duration_text = ''2 mins'',
       route_polyline = ''??_glW??_glW?_glW'',
       route_summary = ''N1'',
       route_warnings = [],
       route_waypoint_order = [] \<rparr>"

text \<open>The same response with a leg total that is not the sum of its steps' distances.\<close>

definition skewed_raw_route :: "pyfloat raw_route" where
  "skewed_raw_route =
     sample_raw_route \<lparr> raw_legs := map (\<lambda>leg. leg \<lparr> leg_distance := 1000 \<rparr>)
                                        (raw_legs sample_raw_route) \<rparr>"

text \<open>The reduced route of the sample route for an object at (4,0).\<close>

definition sample_reduced :: "pyfloat step list" where
  "sample_reduced =
     [\<lparr>step_start_location = \<lparr>lat = Fin 4, lng = Fin 0\<rparr>,
       step_end_location = \<lparr>lat = Fin 4, lng = Fin 4\<rparr>,
       step_distance = 400, step_duration = None, step_polyline = ''_glW??_glW''\<rparr>,
      \<lparr>step_start_location = loc 4 4, step_end_location = loc 4 8,
       step_distance = 400, step_duration = Some 40, step_polyline = ''_glW_glW?_glW''\<rparr>]"

section \<open>Notions of the statements, and further sample steps\<close>

text \<open>The point emitted when the scan of a step found none: its end location.\<close>

definition fallback_point :: "'f step \<Rightarrow> int \<Rightarrow> 'f stop_point" where
  "fallback_point step full_distance =
     init_stop_point (lat (step_end_location step)) (lng (step_end_location step)) full_distance"

text \<open>
  Steps with degenerate geometry: one with an empty polyline, and one of zero distance
  after a step that leaves a running distance above the spacing.
\<close>

definition hollow_step :: "pyfloat step" where
  "hollow_step = \<lparr> step_start_location = loc 0 0, step_end_location = loc 1 0,
       step_distance = 100, step_duration = Some 10, step_polyline = [] \<rparr>"

definition long_step :: "pyfloat step" where
  "long_step = \<lparr> step_start_location = loc 0 0, step_end_location = loc 1 0,
       step_distance = 128, step_duration = Some 10, step_polyline = ''??_ibE?'' \<rparr>"

definition zero_step :: "pyfloat step" where
  "zero_step = \<lparr> step_start_location = loc 1 0, step_end_location = loc 1 0,
       step_distance = 0, step_duration = Some 0, step_polyline = ''_ibE???'' \<rparr>"

text \<open>
  The remaining polyline length of \<open>__calculate_left_step\<close>: the sector lengths from
  the located vertex on, added up from \<open>0.0\<close>.
\<close>

definition remaining_length :: "'f env \<Rightarrow> 'f list \<Rightarrow> nat \<Rightarrow> 'f" where
  "remaining_length E sector_lengths ci = foldl (f_add E) (f_zero E) (drop ci sector_lengths)"

text \<open>
  A step whose polyline ends in a repeated vertex, and one whose polyline returns to its
  first vertex.
\<close>

definition dup_step :: "pyfloat step" where
  "dup_step = \<lparr> step_start_location = loc 0 0, step_end_location = loc 1 0,
       step_distance = 100, step_duration = Some 10, step_polyline = ''??_ibE???'' \<rparr>"

definition loop_step :: "pyfloat step" where
  "loop_step = \<lparr> step_start_location = loc 0 0, step_end_location = loc 0 0,
       step_distance = 100, step_duration = Some 10, step_polyline = ''??_ibE?~hbE?'' \<rparr>"

text \<open>
  The planar distance from the object to a vertex, as \<open>__locate_coordinate\<close> computes
  it, and the distances of all vertices of a step list.
\<close>

definition vertex_distance :: "'f env \<Rightarrow> 'f location \<Rightarrow> 'f \<times> 'f \<Rightarrow> 'f" where
  "vertex_distance E coordinate v =
     f_sqrt E (f_add E (f_sq E (f_sub E (lat coordinate) (fst v)))
                       (f_sq E (f_sub E (lng coordinate) (snd v))))"

definition all_distances :: "'f env \<Rightarrow> 'f step list \<Rightarrow> 'f location \<Rightarrow> 'f set" where
  "all_distances E steps coordinate =
     (\<Union>s\<in>set steps. vertex_distance E coordinate ` set (decode E (step_polyline s)))"

text \<open>
  The comparison \<open><\<close> is a strict weak order on a set of floats: irreflexive,
  transitive, and so is its negation. Floats other than NaN are so ordered.
\<close>

definition ordered_on :: "'f env \<Rightarrow> 'f set \<Rightarrow> bool" where
  "ordered_on E D \<longleftrightarrow>
     (\<forall>a\<in>D. \<not> f_lt E a a)
     \<and> (\<forall>a\<in>D. \<forall>b\<in>D. \<forall>c\<in>D. f_lt E a b \<and> f_lt E b c \<longrightarrow> f_lt E a c)
     \<and> (\<forall>a\<in>D. \<forall>b\<in>D. \<forall>c\<in>D. \<not> f_lt E a b \<and> \<not> f_lt E b c \<longrightarrow> \<not> f_lt E a c)"

text \<open>
  The state of the loop of \<open>__locate_step\<close> after the steps \<open>seen\<close>: nothing
  located and every polyline so far empty, or the index of the first step that holds a
  vertex no farther than every vertex so far.
\<close>

definition nearest_so_far :: "'f env \<Rightarrow> 'f location \<Rightarrow> 'f step list \<Rightarrow> nat option \<times> 'f \<Rightarrow> bool" where
  "nearest_so_far E coordinate seen acc \<longleftrightarrow>
     (fst acc = None \<and> snd acc = f_inf E \<and> (\<forall>s\<in>set seen. decode E (step_polyline s) = []))
     \<or> (\<exists>i v. fst acc = Some i \<and> snd acc = vertex_distance E coordinate v \<and> i < length seen
           \<and> v \<in> set (decode E (step_polyline (seen ! i)))
           \<and> (\<forall>s\<in>set seen. \<forall>w\<in>set (decode E (step_polyline s)).
                 \<not> f_lt E (vertex_distance E coordinate w) (vertex_distance E coordinate v))
           \<and> (\<forall>j<i. \<forall>w\<in>set (decode E (step_polyline (seen ! j))).
                 f_lt E (vertex_distance E coordinate v) (vertex_distance E coordinate w)))"

section \<open>Sector lengths, the nearest vertex and the first target of the scan\<close>

text \<open>
  The length of the sector between two vertices as \<open>__calculate_sector_lengths\<close>
  computes it, the sector lengths of a polyline, and their sum from \<open>0.0\<close>.
\<close>

definition segment_length :: "'f env \<Rightarrow> 'f \<times> 'f \<Rightarrow> 'f \<times> 'f \<Rightarrow> 'f" where
  "segment_length E a b =
     f_sqrt E (f_add E (f_sq E (f_sub E (fst a) (fst b))) (f_sq E (f_sub E (snd a) (snd b))))"

definition segments :: "'f env \<Rightarrow> ('f \<times> 'f) list \<Rightarrow> 'f list" where
  "segments E cs = map (\<lambda>ab. segment_length E (fst ab) (snd ab)) (zip cs (tl cs))"

definition path_length :: "'f env \<Rightarrow> ('f \<times> 'f) list \<Rightarrow> 'f" where
  "path_length E cs = foldl (f_add E) (f_zero E) (segments E cs)"

text \<open>
  Vertex \<open>i\<close> is nearest to the object, and the first such: no vertex is nearer, and
  every vertex before it is strictly farther.
\<close>

definition nearest_first :: "'f env \<Rightarrow> 'f location \<Rightarrow> ('f \<times> 'f) list \<Rightarrow> nat \<Rightarrow> bool" where
  "nearest_first E coordinate cs i \<longleftrightarrow>
     i < length cs
     \<and> list_all (\<lambda>w. \<not> f_lt E (vertex_distance E coordinate w) (vertex_distance E coordinate (cs ! i))) cs
     \<and> list_all (\<lambda>w. f_lt E (vertex_distance E coordinate (cs ! i)) (vertex_distance E coordinate w))
         (take i cs)"

text \<open>
  The scan of \<open>__aproximate_stop_points\<close>: the running sum of the first \<open>k + 1\<close>
  sector lengths; the first fraction
  \<open>abs(distance_between_points - (distance - step["distance"])) / step["distance"]\<close>;
  the first target, that fraction of the polyline length; the first sector at which the
  running sum exceeds a target, and no sector doing so.
\<close>

definition running_length :: "'f env \<Rightarrow> 'f list \<Rightarrow> nat \<Rightarrow> 'f" where
  "running_length E sector_lengths k = foldl (f_add E) (f_zero E) (take (Suc k) sector_lengths)"

definition first_stop_point_percent :: "'f env \<Rightarrow> 'f step \<Rightarrow> int \<Rightarrow> int \<Rightarrow> 'f" where
  "first_stop_point_percent E step distance distance_between_points =
     int_truediv E \<bar>distance_between_points - (distance - step_distance step)\<bar> (step_distance step)"

definition first_target :: "'f env \<Rightarrow> 'f step \<Rightarrow> int \<Rightarrow> int \<Rightarrow> 'f" where
  "first_target E step distance distance_between_points =
     f_mul E (first_stop_point_percent E step distance distance_between_points)
       (path_length E (decode E (step_polyline step)))"

definition first_crossing :: "'f env \<Rightarrow> 'f \<Rightarrow> 'f list \<Rightarrow> nat \<Rightarrow> bool" where
  "first_crossing E target sector_lengths k \<longleftrightarrow>
     k < length sector_lengths
     \<and> f_lt E target (running_length E sector_lengths k)
     \<and> list_all (\<lambda>j. \<not> f_lt E target (running_length E sector_lengths j)) [0..<k]"

definition no_crossing :: "'f env \<Rightarrow> 'f \<Rightarrow> 'f list \<Rightarrow> bool" where
  "no_crossing E target sector_lengths \<longleftrightarrow>
     list_all (\<lambda>j. \<not> f_lt E target (running_length E sector_lengths j)) [0..<length sector_lengths]"

section \<open>The public operations on a store\<close>

text \<open>
  Python passes the route by reference, and lists and dictionaries can be changed in
  place. To state what a call does to its argument, the objects live in a store: a
  list of objects, an address being a position. A route dictionary holds the address of
  its list of steps (and its end location), a list holds the addresses of the step
  dictionaries. Allocation appends to the store; \<open>list.insert(0, x)\<close> overwrites the
  list object in place. The operations below follow the source statement by statement:
  the slice \<open>route["steps"][step_ind + 1:]\<close> allocates a new list, the literal
  \<open>{"steps": ...}\<close> a new dictionary, \<open>__calculate_left_step\<close> a new step
  dictionary. Lists of points are local to the call and are kept as values.
\<close>

type_synonym addr = nat

datatype 'f obj =
    RouteObj addr "'f location"
  | DictObj addr
  | ListObj "addr list"
  | StepObj "'f step"

type_synonym 'f heap = "'f obj list"

definition alloc :: "'f heap \<Rightarrow> 'f obj \<Rightarrow> 'f heap \<times> addr" where
  "alloc h ob = (h @ [ob], length h)"

definition load :: "'f heap \<Rightarrow> addr \<Rightarrow> error + 'f obj" where
  "load h a = (if a < length h then Inr (h ! a) else Inl KeyError)"

fun load_steps :: "'f heap \<Rightarrow> addr list \<Rightarrow> error + 'f step list" where
  "load_steps h [] = Inr []"
| "load_steps h (a # rest) =
     (case load h a of
        Inr (StepObj step) \<Rightarrow>
          (case load_steps h rest of Inl e \<Rightarrow> Inl e | Inr steps \<Rightarrow> Inr (step # steps))
      | Inr _ \<Rightarrow> Inl TypeError
      | Inl e \<Rightarrow> Inl e)"

definition load_list :: "'f heap \<Rightarrow> addr \<Rightarrow> error + addr list" where
  "load_list h a = (case load h a of Inr (ListObj refs) \<Rightarrow> Inr refs | Inr _ \<Rightarrow> Inl TypeError | Inl e \<Rightarrow> Inl e)"

definition steps_ref_of :: "'f heap \<Rightarrow> addr \<Rightarrow> error + addr" where
  "steps_ref_of h r =
     (case load h r of
        Inr (RouteObj la _) \<Rightarrow> Inr la
      | Inr (DictObj la) \<Rightarrow> Inr la
      | Inr _ \<Rightarrow> Inl TypeError
      | Inl e \<Rightarrow> Inl e)"

definition steps_of :: "'f heap \<Rightarrow> addr \<Rightarrow> error + 'f step list" where
  "steps_of h r =
     (case steps_ref_of h r of
        Inl e \<Rightarrow> Inl e
      | Inr la \<Rightarrow> (case load_list h la of Inl e \<Rightarrow> Inl e | Inr refs \<Rightarrow> load_steps h refs))"

definition end_location_of :: "'f heap \<Rightarrow> addr \<Rightarrow> error + 'f location" where
  "end_location_of h r =
     (case load h r of
        Inr (RouteObj _ end_location) \<Rightarrow> Inr end_location
      | Inr (DictObj _) \<Rightarrow> Inl KeyError
      | Inr _ \<Rightarrow> Inl TypeError
      | Inl e \<Rightarrow> Inl e)"

definition list_insert_front :: "'f heap \<Rightarrow> addr \<Rightarrow> addr \<Rightarrow> error + 'f heap" where
  "list_insert_front h la x =
     (case load_list h la of Inl e \<Rightarrow> Inl e | Inr refs \<Rightarrow> Inr (h[la := ListObj (x # refs)]))"

text \<open>
  \<open>__calculate_left_step\<close> on the store: its result, when there is one, is a newly
  allocated step dictionary.
\<close>

definition calculate_left_step_st ::
  "'f env \<Rightarrow> 'f heap \<Rightarrow> 'f step \<Rightarrow> 'f location \<Rightarrow> error + addr option \<times> 'f heap" where
  "calculate_left_step_st E h step coordinate =
     (case calculate_left_step E step coordinate of
        Inl e \<Rightarrow> Inl e
      | Inr None \<Rightarrow> Inr (None, h)
      | Inr (Some left_step) \<Rightarrow> (let (h', a) = alloc h (StepObj left_step) in Inr (Some a, h')))"

text \<open>
  Lines 145 to 150 of \<open>get_point_on_route\<close>: the reduced route is built from a slice
  of the step list, and the partial step is inserted in front of that slice.
\<close>

definition build_left_route ::
  "'f heap \<Rightarrow> addr \<Rightarrow> nat \<Rightarrow> addr option \<Rightarrow> error + addr \<times> 'f heap" where
  "build_left_route h route step_ind left_step_in_current_step =
     (case steps_ref_of h route of
        Inl e \<Rightarrow> Inl e
      | Inr la \<Rightarrow>
          (case load_list h la of
             Inl e \<Rightarrow> Inl e
           | Inr refs \<Rightarrow>
               (let (h1, sliced) = alloc h (ListObj (drop (step_ind + 1) refs));
                    (h2, reduced) = alloc h1 (DictObj sliced)
                in case left_step_in_current_step of
                     None \<Rightarrow> Inr (reduced, h2)
                   | Some a \<Rightarrow>
                       (case steps_ref_of h2 reduced of
                          Inl e \<Rightarrow> Inl e
                        | Inr la' \<Rightarrow>
                            (case list_insert_front h2 la' a of
                               Inl e \<Rightarrow> Inl e
                             | Inr h3 \<Rightarrow> Inr (reduced, h3))))))"

definition get_stop_points_st ::
  "'f env \<Rightarrow> 'f heap \<Rightarrow> addr \<Rightarrow> int \<Rightarrow> int \<Rightarrow> bool \<Rightarrow> error + 'f stop_point list \<times> 'f heap" where
  "get_stop_points_st E h route distance_between_points traveled_distance only_first =
     (case steps_of h route of
        Inl e \<Rightarrow> Inl e
      | Inr steps \<Rightarrow>
          (case locate_stop_points E steps distance_between_points traveled_distance only_first of
             Inl e \<Rightarrow> Inl e
           | Inr (pts, _, _) \<Rightarrow> Inr (pts, h)))"

definition get_point_on_route_st ::
  "'f env \<Rightarrow> 'f heap \<Rightarrow> addr \<Rightarrow> 'f location \<Rightarrow> int option \<Rightarrow> int option \<Rightarrow> int option
     \<Rightarrow> error + ('f stop_point option \<times> bool) \<times> 'f heap" where
  "get_point_on_route_st E h route coordinate distance time speed =
     (case (case distance of
              None \<Rightarrow> (case (time, speed) of
                         (Some t, Some v) \<Rightarrow> Inr (t * v)
                       | _ \<Rightarrow> Inl TypeError)
            | Some d \<Rightarrow> Inr d) of
        Inl e \<Rightarrow> Inl e
      | Inr d \<Rightarrow>
          (case steps_of h route of
             Inl e \<Rightarrow> Inl e
           | Inr steps \<Rightarrow>
               (case locate_step E steps coordinate of
                  None \<Rightarrow> Inr ((None, False), h)
                | Some step_ind \<Rightarrow>
                    (case calculate_left_step_st E h (steps ! step_ind) coordinate of
                       Inl e \<Rightarrow> Inl e
                     | Inr (left_step_in_current_step, h1) \<Rightarrow>
                         (case build_left_route h1 route step_ind left_step_in_current_step of
                            Inl e \<Rightarrow> Inl e
                          | Inr (reduced, h2) \<Rightarrow>
                              (case steps_of h2 reduced of
                                 Inl e \<Rightarrow> Inl e
                               | Inr left_steps \<Rightarrow>
                                   (case locate_stop_points E left_steps d 0 True of
                                      Inl e \<Rightarrow> Inl e
                                    | Inr (predicted_points, full_distance, _) \<Rightarrow>
                                        if length predicted_points > 0
                                        then Inr ((Some (hd predicted_points), False), h2)
                                        else (case end_location_of h2 route of
                                                Inl e \<Rightarrow> Inl e
                                              | Inr end_location \<Rightarrow>
                                                  Inr ((Some \<lparr> point_lat = lat end_location,
                                                                point_lng = lng end_location,
                                                                point_distance = full_distance \<rparr>,
                                                        True), h2)))))))))"

text \<open>Every object of the store \<open>h\<close> is still there, unchanged, in \<open>h'\<close>.\<close>

definition frame :: "'f heap \<Rightarrow> 'f heap \<Rightarrow> bool" where
  "frame h h' \<longleftrightarrow> length h \<le> length h' \<and> (\<forall>a<length h. h' ! a = h ! a)"

text \<open>The sample route in a store, and the store after a projection from (4,0).\<close>

definition sample_heap :: "pyfloat heap" where
  "sample_heap =
     [RouteObj 1 (loc 4 8), ListObj [2, 3], StepObj (sample_steps ! 0), StepObj (sample_steps ! 1)]"

definition sample_heap_after :: "pyfloat heap" where
  "sample_heap_after =
     sample_heap @
     [StepObj \<lparr>step_start_location = \<lparr>lat = Fin 4, lng = Fin 0\<rparr>,
               step_end_location = \<lparr>lat = Fin 4, lng = Fin 4\<rparr>,
               step_distance = 400, step_duration = None, step_polyline = ''_glW??_glW''\<rparr>,
      ListObj [4, 3], DictObj 5]"

section \<open>A float environment with binary64 rounding\<close>





text \<open>A step of 1 m followed by a step of 49 m.\<close>

definition unit_step :: "pyfloat step" where
  "unit_step = \<lparr> step_start_location = loc 0 0, step_end_location = loc 1 0,
       step_distance = 1, step_duration = Some 1, step_polyline = ''??_ibE?'' \<rparr>"


section \<open>The scan of a step without rounding\<close>



section \<open>Properties: text formatting\<close>

lemma convert_seconds_eq_spec:
  "convert_seconds_to_duration_text seconds = duration_text_spec seconds"
proof -
  define hours where "hours = seconds div 3600"
  define minutes where "minutes = seconds mod 3600 div 60"
  have "convert_seconds_to_duration_text seconds =
      (if hours = 0 \<and> minutes = 0 then ''0 mins''
       else (if hours > 0 then str_int hours @ '' hour'' @ (if hours > 1 then ''s'' else [])
                               @ (if minutes > 0 then '' '' else [])
             else [])
            @ (if minutes > 0 then str_int minutes @ '' min'' @ (if minutes > 1 then ''s'' else [])
               else []))"
    unfolding convert_seconds_to_duration_text_def SECONDS_IN_HOUR_def SECONDS_IN_MINUTE_def
      Let_def hours_def [symmetric] minutes_def [symmetric]
    by simp
  also have "\<dots> = duration_text_spec seconds"
    unfolding duration_text_spec_def Let_def hours_def [symmetric] minutes_def [symmetric]
    by (simp add: unit_text_def)
  finally show ?thesis .
qed

text \<open>
  C8: for every non-negative number of seconds the rendered duration is the one the
  specification's rule gives, and the four documented values are rendered as stated.
\<close>

theorem C8_duration_text:
  "(\<forall>seconds\<ge>0. convert_seconds_to_duration_text seconds = duration_text_spec seconds)
   \<and> convert_seconds_to_duration_text 0 = ''0 mins''
   \<and> convert_seconds_to_duration_text 3600 = ''1 hour''
   \<and> convert_seconds_to_duration_text 5400 = ''1 hour 30 mins''
   \<and> convert_seconds_to_duration_text 7200 = ''2 hours''"
proof -
  have a: "convert_seconds_to_duration_text 0 = ''0 mins''" by code_simp
  have b: "convert_seconds_to_duration_text 3600 = ''1 hour''" by code_simp
  have c: "convert_seconds_to_duration_text 5400 = ''1 hour 30 mins''" by code_simp
  have d: "convert_seconds_to_duration_text 7200 = ''2 hours''" by code_simp
  show ?thesis using a b c d by (simp add: convert_seconds_eq_spec)
qed

theorem C8_duration_text_witness:
  "(0::int) \<le> 3660 \<and> convert_seconds_to_duration_text 3660 = duration_text_spec 3660
   \<and> duration_text_spec 3660 = ''1 hour 1 min''"
proof -
  have h: "(0::int) \<le> 3660" by simp
  have e: "duration_text_spec 3660 = ''1 hour 1 min''" by code_simp
  from C8_duration_text have "\<forall>seconds\<ge>0. convert_seconds_to_duration_text seconds = duration_text_spec seconds"
    by (rule conjunct1)
  with h have "convert_seconds_to_duration_text 3660 = duration_text_spec 3660" by blast
  with h e show ?thesis by simp
qed

section \<open>Properties: route model builder\<close>

lemma parse_leg_steps_eq: "parse_leg_steps rs acc = acc @ map parse_step rs"
  by (induction rs arbitrary: acc) simp_all

lemma parse_legs_eq:
  "parse_legs legs (d, u, ss) =
     (d + sum_list (map leg_distance legs), u + sum_list (map leg_duration legs),
      ss @ concat (map (\<lambda>leg. map parse_step (leg_steps leg)) legs))"
  by (induction legs arbitrary: d u ss) (simp_all add: parse_leg_steps_eq)

lemma sum_list_concat_map:
  "sum_list (map f (concat (map g xs))) = sum_list (map (\<lambda>x. sum_list (map f (g x))) xs)"
  by (induction xs) simp_all

lemma parse_sample_raw_route: "parse_route sample_env sample_raw_route = Inr sample_route"
proof -
  have f: "x_format_1f (Fin (6 / 5)) = ''1.2''" by code_simp
  have t: "convert_meters_to_distance_text sample_env 1200 = ''1.2 km''"
    by (simp add: convert_meters_to_distance_text_def METERS_IN_KILOMETERS_def sample_env_def
        exact_env_def f del: x_format_1f.simps)
  have u: "convert_seconds_to_duration_text 120 = ''2 mins''" by code_simp
  show ?thesis
    by (simp add: parse_route_def sample_raw_route_def sample_route_def sample_steps_def
        parse_step_def t u)
qed

text \<open>
  C1, as the code has it: the totals of a built route are the sums of the legs' own
  values and its steps are the legs' steps in order, so the totals are the sums over
  the steps whenever every leg's total is the sum over its steps. The reduced route of
  the projection is a dictionary with the single key \<open>steps\<close>; it has no totals.
\<close>

theorem C1_route_totals:
  assumes "parse_route E raw = Inr r"
  shows "route_distance r = sum_list (map leg_distance (raw_legs raw))
       \<and> route_duration r = sum_list (map leg_duration (raw_legs raw))
       \<and> route_steps r = concat (map (\<lambda>leg. map parse_step (leg_steps leg)) (raw_legs raw))
       \<and> ((\<forall>leg \<in> set (raw_legs raw).
              leg_distance leg = sum_list (map raw_step_distance (leg_steps leg)))
            \<longrightarrow> route_distance r = sum_list (map step_distance (route_steps r)))
       \<and> ((\<forall>leg \<in> set (raw_legs raw).
              leg_duration leg = sum_list (map raw_step_duration (leg_steps leg)))
            \<longrightarrow> route_duration r = sum_list (map step_duration_value (route_steps r)))
       \<and> dom (left_route (route_steps r) step_ind left_step) = {''steps''}"
proof -
  from assms obtain first_leg rest where legs: "raw_legs raw = first_leg # rest"
    by (cases "raw_legs raw") (simp_all add: parse_route_def)
  have pl: "parse_legs (raw_legs raw) (0, 0, []) =
      (sum_list (map leg_distance (raw_legs raw)), sum_list (map leg_duration (raw_legs raw)),
       concat (map (\<lambda>leg. map parse_step (leg_steps leg)) (raw_legs raw)))"
    by (simp add: parse_legs_eq)
  from assms have r: "route_distance r = sum_list (map leg_distance (raw_legs raw))"
    "route_duration r = sum_list (map leg_duration (raw_legs raw))"
    "route_steps r = concat (map (\<lambda>leg. map parse_step (leg_steps leg)) (raw_legs raw))"
    unfolding parse_route_def pl by (auto simp: legs Let_def)
  have sd: "\<And>leg. sum_list (map step_distance (map parse_step (leg_steps leg)))
           = sum_list (map raw_step_distance (leg_steps leg))"
    by (simp add: comp_def parse_step_def)
  have su: "\<And>leg. sum_list (map step_duration_value (map parse_step (leg_steps leg)))
           = sum_list (map raw_step_duration (leg_steps leg))"
    by (simp add: comp_def parse_step_def step_duration_value_def)
  have d1: "(\<forall>leg \<in> set (raw_legs raw).
              leg_distance leg = sum_list (map raw_step_distance (leg_steps leg)))
            \<longrightarrow> route_distance r = sum_list (map step_distance (route_steps r))"
    unfolding r sum_list_concat_map sd by (auto intro: arg_cong[where f=sum_list])
  have d2: "(\<forall>leg \<in> set (raw_legs raw).
              leg_duration leg = sum_list (map raw_step_duration (leg_steps leg)))
            \<longrightarrow> route_duration r = sum_list (map step_duration_value (route_steps r))"
    unfolding r sum_list_concat_map su by (auto intro: arg_cong[where f=sum_list])
  have d3: "dom (left_route (route_steps r) step_ind left_step) = {''steps''}"
    by (simp add: left_route_def)
  from r d1 d2 d3 show ?thesis by blast
qed

theorem C1_route_totals_witness:
  "parse_route sample_env sample_raw_route = Inr sample_route
   \<and> map leg_distance (raw_legs sample_raw_route)
       = map (\<lambda>leg. sum_list (map raw_step_distance (leg_steps leg))) (raw_legs sample_raw_route)
   \<and> map leg_duration (raw_legs sample_raw_route)
       = map (\<lambda>leg. sum_list (map raw_step_duration (leg_steps leg))) (raw_legs sample_raw_route)
   \<and> route_distance sample_route = sum_list (map step_distance (route_steps sample_route))
   \<and> route_duration sample_route = sum_list (map step_duration_value (route_steps sample_route))
   \<and> dom (left_route (route_steps sample_route) 0 None) = {''steps''}"
proof -
  have a: "map leg_distance (raw_legs sample_raw_route)
       = map (\<lambda>leg. sum_list (map raw_step_distance (leg_steps leg))) (raw_legs sample_raw_route)"
    by (simp add: sample_raw_route_def)
  have b: "map leg_duration (raw_legs sample_raw_route)
       = map (\<lambda>leg. sum_list (map raw_step_duration (leg_steps leg))) (raw_legs sample_raw_route)"
    by (simp add: sample_raw_route_def)
  from a have a': "\<forall>leg \<in> set (raw_legs sample_raw_route).
         leg_distance leg = sum_list (map raw_step_distance (leg_steps leg))"
    by simp
  from b have b': "\<forall>leg \<in> set (raw_legs sample_raw_route).
         leg_duration leg = sum_list (map raw_step_duration (leg_steps leg))"
    by simp
  from C1_route_totals [OF parse_sample_raw_route, of 0 None] a' b' a b parse_sample_raw_route
  show ?thesis by blast
qed

text \<open>
  The claim as stated fails on a response whose leg total differs from the sum of its
  steps' distances: the route's distance is 1000, its steps' distances add up to 1200.
\<close>

theorem C1_counterexample:
  "parse_route sample_env skewed_raw_route =
     Inr (sample_route \<lparr> route_distance := 1000, route_distance_text := ''1.0 km'' \<rparr>)
   \<and> route_distance (sample_route \<lparr> route_distance := 1000, route_distance_text := ''1.0 km'' \<rparr>)
       = 1000
   \<and> sum_list (map step_distance
         (route_steps (sample_route \<lparr> route_distance := 1000, route_distance_text := ''1.0 km'' \<rparr>)))
       = 1200"
proof -
  have f: "x_format_1f (Fin 1) = ''1.0''" by code_simp
  have t: "convert_meters_to_distance_text sample_env 1000 = ''1.0 km''"
    by (simp add: convert_meters_to_distance_text_def METERS_IN_KILOMETERS_def sample_env_def
        exact_env_def f del: x_format_1f.simps)
  have u: "convert_seconds_to_duration_text 120 = ''2 mins''" by code_simp
  show ?thesis
    by (simp add: parse_route_def skewed_raw_route_def sample_raw_route_def sample_route_def
        sample_steps_def parse_step_def t u)
qed

section \<open>Properties: forward point projection\<close>

text \<open>
  C10: with \<open>distance\<close> absent and \<open>time\<close> or \<open>speed\<close> absent, the call raises
  TypeError; it does not return \<open>(None, False)\<close>.
\<close>

theorem C10_absent_operand:
  assumes "distance = None" and "time = None \<or> speed = None"
  shows "get_point_on_route E route coordinate distance time speed = Inl TypeError
       \<and> get_point_on_route E route coordinate distance time speed \<noteq> Inr (None, False)"
  using assms by (auto simp: get_point_on_route_def split: option.splits)

theorem C10_absent_operand_witness:
  "get_point_on_route sample_env sample_route (loc 4 0) None (Some 5) None = Inl TypeError
   \<and> get_point_on_route sample_env sample_route (loc 4 0) None (Some 5) None \<noteq> Inr (None, False)"
proof -
  have "(Some (5::int) = None) \<or> (None :: int option) = None" by simp
  from C10_absent_operand [OF refl this] show ?thesis .
qed

section \<open>Evaluation on the sample inputs\<close>

lemma sqrt_16: "sqrt 16 = 4"
  using real_sqrt_abs [of 4] by simp

lemmas eval_defs = sample_env_def exact_env_def sample_decode_def sample_encode_def
  sample_steps_def sample_route_def locate_stop_points_def aproximate_stop_points_def
  calculate_sector_lengths_def init_stop_point_def loc_def Let_def py_trunc_def sqrt_16

lemma sample_stop_points_all:
  "locate_stop_points sample_env sample_steps 200 0 False =
     Inr ([\<lparr>point_lat = Fin 0, point_lng = Fin 0, point_distance = 200\<rparr>,
           \<lparr>point_lat = Fin 4, point_lng = Fin 0, point_distance = 400\<rparr>,
           \<lparr>point_lat = Fin 4, point_lng = Fin 4, point_distance = 1000\<rparr>], 1200, 200)"
  by (simp add: eval_defs)

lemma sample_stop_points_first:
  "locate_stop_points sample_env sample_steps 200 0 True =
     Inr ([\<lparr>point_lat = Fin 0, point_lng = Fin 0, point_distance = 200\<rparr>], 800, 600)"
  by (simp add: eval_defs)

section \<open>Properties: stop-point extraction\<close>

text \<open>
  Stopping at the first point: the points of an interrupted scan are a prefix of the
  points of the full scan, one element longer than the points the scan started with.
\<close>

lemma stop_points_loop_prefix:
  "stop_points_loop E step full b npp npl zs s = Inr s' \<Longrightarrow> \<exists>more. points s' = points s @ more"
proof (induction zs arbitrary: s)
  case Nil
  then show ?case by simp
next
  case (Cons z zs)
  obtain coordinate sector_length where z: "z = (coordinate, sector_length)" by (cases z)
  show ?case
  proof (cases "f_lt E (stop_point_on_polyline s) (f_add E (current_polyline s) sector_length)")
    case False
    with Cons.prems z
    have "stop_points_loop E step full b npp npl zs
            (s\<lparr>current_polyline := f_add E (current_polyline s) sector_length\<rparr>) = Inr s'"
      by (simp add: Let_def)
    from Cons.IH [OF this] show ?thesis by simp
  next
    case True
    show ?thesis
    proof (cases "f_to_int E (f_mul E (current_percent s) (f_of_int E (step_distance step)))")
      case (Inl e)
      with Cons.prems z True show ?thesis by (simp add: Let_def)
    next
      case (Inr k)
      show ?thesis
      proof (cases b)
        case True
        with Cons.prems z \<open>f_lt E _ _\<close> Inr show ?thesis by (auto simp: Let_def)
      next
        case False
        with Cons.prems z \<open>f_lt E _ _\<close> Inr obtain s'' where
          "stop_points_loop E step full b npp npl zs s'' = Inr s'"
          and "\<exists>p. points s'' = points s @ [p]"
          by (auto simp: Let_def)
        with Cons.IH [of s''] show ?thesis by auto
      qed
    qed
  qed
qed

lemma stop_points_loop_first:
  "stop_points_loop E step full True npp npl zs s = Inr sT \<Longrightarrow>
   stop_points_loop E step full False npp npl zs s = Inr sF \<Longrightarrow>
   points sT = take (Suc (length (points s))) (points sF)"
proof (induction zs arbitrary: s)
  case Nil
  then show ?case by simp
next
  case (Cons z zs)
  obtain coordinate sector_length where z: "z = (coordinate, sector_length)" by (cases z)
  show ?case
  proof (cases "f_lt E (stop_point_on_polyline s) (f_add E (current_polyline s) sector_length)")
    case False
    with Cons.prems z
    have "stop_points_loop E step full True npp npl zs
            (s\<lparr>current_polyline := f_add E (current_polyline s) sector_length\<rparr>) = Inr sT"
      "stop_points_loop E step full False npp npl zs
            (s\<lparr>current_polyline := f_add E (current_polyline s) sector_length\<rparr>) = Inr sF"
      by (simp_all add: Let_def)
    from Cons.IH [OF this] show ?thesis by simp
  next
    case True
    show ?thesis
    proof (cases "f_to_int E (f_mul E (current_percent s) (f_of_int E (step_distance step)))")
      case (Inl e)
      with Cons.prems z True show ?thesis by (simp add: Let_def)
    next
      case (Inr k)
      define s'' where "s'' = \<lparr> points = points s @ [init_stop_point (fst coordinate) (snd coordinate)
                                  (full - step_distance step + k)],
                               new_distance = full - point_distance (init_stop_point (fst coordinate) (snd coordinate)
                                  (full - step_distance step + k)),
                               current_polyline = f_add E (current_polyline s) sector_length,
                               current_percent = f_add E (current_percent s) npp,
                               stop_point_on_polyline =
                                 f_add E (stop_point_on_polyline s) npl \<rparr>"
      from Cons.prems z True Inr have T: "sT = s''"
        and F: "stop_points_loop E step full False npp npl zs s'' = Inr sF"
        by (simp_all add: Let_def s''_def)
      from stop_points_loop_prefix [OF F] obtain more where "points sF = points s'' @ more" ..
      with T show ?thesis by (simp add: s''_def)
    qed
  qed
qed

lemma aproximate_stop_points_first:
  assumes "aproximate_stop_points E step distance dbp full True = Inr (pT, nT)"
    and "aproximate_stop_points E step distance dbp full False = Inr (pF, nF)"
  shows "pT = take 1 pF \<and> pF \<noteq> []"
proof (cases "step_distance step > 0 \<and> length (decode E (step_polyline step)) > 0")
  case False
  with assms show ?thesis by (auto simp: aproximate_stop_points_def Let_def)
next
  case True
  obtain sl pl where c: "calculate_sector_lengths E (decode E (step_polyline step)) = (sl, pl)"
    by (cases "calculate_sector_lengths E (decode E (step_polyline step))")
  define s0 where "s0 = \<lparr> points = ([] :: 'a stop_point list), new_distance = 0, current_polyline = f_zero E,
                          current_percent = int_truediv E \<bar>dbp - (distance - step_distance step)\<bar>
                           (step_distance step),
                          stop_point_on_polyline = f_mul E (int_truediv E \<bar>dbp - (distance - step_distance step)\<bar>
                           (step_distance step)) pl \<rparr>"
  define run where "run b = stop_points_loop E step full b (int_truediv E dbp (step_distance step))
                        (f_mul E (int_truediv E dbp (step_distance step)) pl)
                        (zip (decode E (step_polyline step)) sl) s0" for b
  from assms(1) True c obtain sT where T: "run True = Inr sT"
    and pT: "pT = (if points sT = [] then [init_stop_point (lat (step_end_location step))
                                     (lng (step_end_location step)) full] else points sT)"
    by (auto simp: aproximate_stop_points_def Let_def run_def s0_def split: sum.splits if_splits)
  from assms(2) True c obtain sF where F: "run False = Inr sF"
    and pF: "pF = (if points sF = [] then [init_stop_point (lat (step_end_location step))
                                     (lng (step_end_location step)) full] else points sF)"
    by (auto simp: aproximate_stop_points_def Let_def run_def s0_def split: sum.splits if_splits)
  from stop_points_loop_first [OF T [unfolded run_def] F [unfolded run_def]]
  have "points sT = take 1 (points sF)" by (simp add: s0_def)
  with pT pF show ?thesis by (cases "points sF") auto
qed

lemma locate_stop_points_loop_prefix:
  "locate_stop_points_loop E dbp b steps (pts, full, r) = Inr (pts', full', r') \<Longrightarrow>
   \<exists>more. pts' = pts @ more"
proof (induction steps arbitrary: pts full r)
  case Nil
  then show ?case by simp
next
  case (Cons step steps)
  show ?case
  proof (cases "r + step_distance step \<ge> dbp")
    case False
    with Cons.prems have "locate_stop_points_loop E dbp b steps
        (pts, full + step_distance step, r + step_distance step) = Inr (pts', full', r')"
      by (simp add: Let_def)
    from Cons.IH [OF this] show ?thesis .
  next
    case True
    with Cons.prems obtain new_points r'' where
      a: "aproximate_stop_points E step (r + step_distance step) dbp (full + step_distance step) b
           = Inr (new_points, r'')"
      by (auto simp: Let_def split: sum.splits)
    show ?thesis
    proof (cases b)
      case True
      with Cons.prems \<open>dbp \<le> _\<close> a show ?thesis by (auto simp: Let_def)
    next
      case False
      with Cons.prems True a have "locate_stop_points_loop E dbp b steps
          (pts @ new_points, full + step_distance step, r'') = Inr (pts', full', r')"
        by (simp add: Let_def)
      from Cons.IH [OF this] show ?thesis by auto
    qed
  qed
qed

lemma locate_stop_points_loop_first:
  "locate_stop_points_loop E dbp True steps (pts, full, r) = Inr (pT, fT, rT) \<Longrightarrow>
   locate_stop_points_loop E dbp False steps (pts, full, r) = Inr (pF, fF, rF) \<Longrightarrow>
   pT = take (Suc (length pts)) pF"
proof (induction steps arbitrary: pts full r)
  case Nil
  then show ?case by simp
next
  case (Cons step steps)
  show ?case
  proof (cases "r + step_distance step \<ge> dbp")
    case False
    with Cons.prems have "locate_stop_points_loop E dbp True steps
        (pts, full + step_distance step, r + step_distance step) = Inr (pT, fT, rT)"
      "locate_stop_points_loop E dbp False steps
        (pts, full + step_distance step, r + step_distance step) = Inr (pF, fF, rF)"
      by (simp_all add: Let_def)
    from Cons.IH [OF this] show ?thesis .
  next
    case True
    with Cons.prems(1) obtain nT rT' where
      aT: "aproximate_stop_points E step (r + step_distance step) dbp (full + step_distance step) True
           = Inr (nT, rT')" and pT: "pT = pts @ nT"
      by (auto simp: Let_def split: sum.splits)
    from True Cons.prems(2) obtain nF rF' where
      aF: "aproximate_stop_points E step (r + step_distance step) dbp (full + step_distance step) False
           = Inr (nF, rF')"
      and lF: "locate_stop_points_loop E dbp False steps
          (pts @ nF, full + step_distance step, rF') = Inr (pF, fF, rF)"
      by (auto simp: Let_def split: sum.splits)
    from aproximate_stop_points_first [OF aT aF] have n: "nT = take 1 nF" "nF \<noteq> []" by simp_all
    from locate_stop_points_loop_prefix [OF lF] obtain more where "pF = (pts @ nF) @ more" ..
    with pT n show ?thesis by (cases nF) simp_all
  qed
qed

text \<open>
  C7: when both calls return, the points found with \<open>only_first=True\<close> are the first
  element (if any) of the points found with \<open>only_first=False\<close>.
\<close>

theorem C7_only_first_is_head:
  assumes "locate_stop_points E steps spacing start_offset True = Inr (pT, fT, rT)"
    and "locate_stop_points E steps spacing start_offset False = Inr (pF, fF, rF)"
  shows "pT = take 1 pF \<and> (pT \<noteq> [] \<longrightarrow> pF \<noteq> [] \<and> hd pT = hd pF)"
proof -
  from assms have "spacing \<noteq> 0" by (auto simp: locate_stop_points_def split: if_splits)
  with assms have "pT = take 1 pF"
    using locate_stop_points_loop_first [of E spacing steps "[]" 0 "start_offset mod spacing"]
    by (simp add: locate_stop_points_def)
  then show ?thesis by (cases pF) auto
qed

theorem C7_only_first_is_head_witness:
  "locate_stop_points sample_env sample_steps 200 0 True =
     Inr ([\<lparr>point_lat = Fin 0, point_lng = Fin 0, point_distance = 200\<rparr>], 800, 600)
   \<and> locate_stop_points sample_env sample_steps 200 0 False =
     Inr ([\<lparr>point_lat = Fin 0, point_lng = Fin 0, point_distance = 200\<rparr>,
           \<lparr>point_lat = Fin 4, point_lng = Fin 0, point_distance = 400\<rparr>,
           \<lparr>point_lat = Fin 4, point_lng = Fin 4, point_distance = 1000\<rparr>], 1200, 200)
   \<and> [\<lparr>point_lat = Fin 0, point_lng = Fin 0, point_distance = 200\<rparr>] =
       take 1 [\<lparr>point_lat = Fin 0, point_lng = Fin 0, point_distance = 200\<rparr>,
               \<lparr>point_lat = Fin 4, point_lng = Fin 0, point_distance = 400\<rparr>,
               \<lparr>point_lat = Fin 4, point_lng = Fin 4, point_distance = (1000::int)\<rparr>]"
  using C7_only_first_is_head [OF sample_stop_points_first sample_stop_points_all]
    sample_stop_points_first sample_stop_points_all
  by blast

section \<open>Properties: projection past the end of the route\<close>

lemma sum_step_distance_nonneg:
  "\<forall>s\<in>set steps. 0 \<le> step_distance s \<Longrightarrow> 0 \<le> sum_list (map step_distance steps)"
  by (induction steps) auto

lemma locate_stop_points_loop_short:
  "\<forall>s\<in>set steps. 0 \<le> step_distance s \<Longrightarrow>
   r + sum_list (map step_distance steps) < dbp \<Longrightarrow>
   locate_stop_points_loop E dbp b steps (pts, full, r) =
     Inr (pts, full + sum_list (map step_distance steps), r + sum_list (map step_distance steps))"
proof (induction steps arbitrary: full r)
  case Nil
  then show ?case by simp
next
  case (Cons step steps)
  have "0 \<le> sum_list (map step_distance steps)"
    using Cons.prems(1) by (simp add: sum_step_distance_nonneg)
  with Cons.prems have small: "\<not> dbp \<le> r + step_distance step" by simp
  from Cons.prems have "locate_stop_points_loop E dbp b steps
      (pts, full + step_distance step, r + step_distance step) =
     Inr (pts, full + step_distance step + sum_list (map step_distance steps),
          r + step_distance step + sum_list (map step_distance steps))"
    by (intro Cons.IH) (simp_all add: add.assoc)
  with small show ?case by (simp add: Let_def add.assoc)
qed

lemma sample_locate_step: "locate_step sample_env (route_steps sample_route) (loc 4 0) = Some 0"
  by (simp add: eval_defs locate_step_def locate_coordinate_def)

lemma sample_left_step:
  "calculate_left_step sample_env (route_steps sample_route ! 0) (loc 4 0) =
     Inr (Some \<lparr>step_start_location = \<lparr>lat = Fin 4, lng = Fin 0\<rparr>,
                 step_end_location = \<lparr>lat = Fin 4, lng = Fin 4\<rparr>,
                 step_distance = 400, step_duration = None,
                 step_polyline = ''_glW??_glW''\<rparr>)"
  by (simp add: eval_defs calculate_left_step_def locate_coordinate_def)

lemma sample_left_route:
  "left_route (route_steps sample_route) 0
     (Some \<lparr>step_start_location = \<lparr>lat = Fin 4, lng = Fin 0\<rparr>,
                 step_end_location = \<lparr>lat = Fin 4, lng = Fin 4\<rparr>,
                 step_distance = 400, step_duration = None,
                 step_polyline = ''_glW??_glW''\<rparr>) ''steps'' = Some sample_reduced"
  by (simp add: left_route_def sample_route_def sample_steps_def sample_reduced_def)

text \<open>
  C2: when a nearest step is found and the projection distance exceeds the total
  distance of the reduced route (the partial step, if any, and the steps after the
  located one), the result is the route's end location stamped with that total, and
  \<open>reached_end\<close> is true. Step distances are non-negative, as the data model has them.
\<close>

theorem C2_projection_past_the_end:
  assumes found: "locate_step E (route_steps route) coordinate = Some step_ind"
    and partial: "calculate_left_step E (route_steps route ! step_ind) coordinate = Inr left_step"
    and reduced: "left_route (route_steps route) step_ind left_step ''steps'' = Some reduced"
    and nonneg: "\<forall>s\<in>set reduced. 0 \<le> step_distance s"
    and far: "sum_list (map step_distance reduced) < d"
    and given: "distance = Some d \<or> (distance = None \<and> time = Some t \<and> speed = Some v \<and> t * v = d)"
  shows "get_point_on_route E route coordinate distance time speed =
           Inr (Some \<lparr> point_lat = lat (route_end_location route),
                        point_lng = lng (route_end_location route),
                        point_distance = sum_list (map step_distance reduced) \<rparr>, True)"
proof -
  have "0 \<le> sum_list (map step_distance reduced)"
    using nonneg by (rule sum_step_distance_nonneg)
  with far have d: "d \<noteq> 0" "0 < d" by simp_all
  have "locate_stop_points E reduced d 0 True =
      Inr ([], sum_list (map step_distance reduced), sum_list (map step_distance reduced))"
    using locate_stop_points_loop_short [OF nonneg, of 0 d E True "[]" 0] far d
    by (simp add: locate_stop_points_def)
  with found partial reduced given show ?thesis
    by (auto simp: get_point_on_route_def)
qed

theorem C2_projection_past_the_end_witness:
  "locate_step sample_env (route_steps sample_route) (loc 4 0) = Some 0
   \<and> sum_list (map step_distance sample_reduced) = 800
   \<and> get_point_on_route sample_env sample_route (loc 4 0) (Some 1000) None None =
       Inr (Some \<lparr> point_lat = Fin 4, point_lng = Fin 8, point_distance = 800 \<rparr>, True)"
proof -
  have nonneg: "\<forall>s\<in>set sample_reduced. 0 \<le> step_distance s"
    by (simp add: sample_reduced_def)
  have total: "sum_list (map step_distance sample_reduced) = 800"
    by (simp add: sample_reduced_def)
  have far: "sum_list (map step_distance sample_reduced) < 1000"
    by (simp add: total)
  have given: "Some (1000::int) = Some 1000 \<or> (Some (1000::int) = None \<and> (None::int option) = Some 0
        \<and> (None::int option) = Some 0 \<and> (0::int) * 0 = 1000)"
    by simp
  from C2_projection_past_the_end [OF sample_locate_step sample_left_step sample_left_route
      nonneg far given]
  have "get_point_on_route sample_env sample_route (loc 4 0) (Some 1000) None None =
       Inr (Some \<lparr> point_lat = lat (route_end_location sample_route),
                    point_lng = lng (route_end_location sample_route),
                    point_distance = sum_list (map step_distance sample_reduced) \<rparr>, True)" .
  with total sample_locate_step show ?thesis
    by (simp add: sample_route_def loc_def)
qed

section \<open>Properties: sector lengths\<close>

lemma sector_lengths_loop_eq:
  "sector_lengths_loop E cs (acc, t) = (acc @ segments E cs, foldl (f_add E) t (segments E cs))"
proof (induction E cs "(acc, t)" arbitrary: acc t rule: sector_lengths_loop.induct)
  case (1 E a b rest sector_lengths polyline_length)
  then show ?case by (simp add: Let_def segments_def segment_length_def)
next
  case (2 E a acc)
  then show ?case by (simp add: segments_def)
next
  case (3 E acc)
  then show ?case by (simp add: segments_def)
qed

lemma calculate_sector_lengths_eq:
  "calculate_sector_lengths E cs = (segments E cs, path_length E cs)"
  by (simp add: calculate_sector_lengths_def sector_lengths_loop_eq path_length_def)

lemma length_segments: "length (segments E cs) = length cs - 1"
  by (simp add: segments_def)

lemma zip_segments:
  "map snd (zip cs (segments E cs)) = segments E cs"
  "length (zip cs (segments E cs)) = length cs - 1"
  "k < length cs - 1 \<Longrightarrow> fst (zip cs (segments E cs) ! k) = cs ! k"
  by (simp_all add: length_segments map_snd_zip_take)

section \<open>Properties: steps with degenerate geometry\<close>

lemma stop_points_loop_shape:
  assumes "stop_points_loop E step full b npp npl zs s = Inr s'"
    and "points s = [] \<longrightarrow> new_distance s = 0"
    and "points s \<noteq> [] \<longrightarrow> new_distance s = full - point_distance (last (points s))"
    and "\<forall>p\<in>set (points s). (point_lat p, point_lng p) \<in> V"
    and "fst ` set zs \<subseteq> V"
  shows "(points s' = [] \<longrightarrow> new_distance s' = 0)
       \<and> (points s' \<noteq> [] \<longrightarrow> new_distance s' = full - point_distance (last (points s')))
       \<and> (\<forall>p\<in>set (points s'). (point_lat p, point_lng p) \<in> V)"
  using assms
proof (induction zs arbitrary: s)
  case Nil
  then show ?case by simp
next
  case (Cons z zs)
  obtain coordinate sector_length where z: "z = (coordinate, sector_length)" by (cases z)
  from Cons.prems(5) z have cV: "coordinate \<in> V" and zsV: "fst ` set zs \<subseteq> V" by auto
  show ?case
  proof (cases "f_lt E (stop_point_on_polyline s) (f_add E (current_polyline s) sector_length)")
    case False
    with Cons.prems(1) z
    have run: "stop_points_loop E step full b npp npl zs
            (s\<lparr>current_polyline := f_add E (current_polyline s) sector_length\<rparr>) = Inr s'"
      by (simp add: Let_def)
    show ?thesis
      by (rule Cons.IH [OF run]) (use Cons.prems zsV in simp_all)
  next
    case True
    show ?thesis
    proof (cases "f_to_int E (f_mul E (current_percent s) (f_of_int E (step_distance step)))")
      case (Inl e)
      with Cons.prems(1) z True show ?thesis by (simp add: Let_def)
    next
      case (Inr k)
      define s'' where "s'' = \<lparr> points = points s @ [init_stop_point (fst coordinate) (snd coordinate)
                                  (full - step_distance step + k)],
                               new_distance = full - point_distance (init_stop_point (fst coordinate) (snd coordinate)
                                  (full - step_distance step + k)),
                               current_polyline = f_add E (current_polyline s) sector_length,
                               current_percent = f_add E (current_percent s) npp,
                               stop_point_on_polyline =
                                 f_add E (stop_point_on_polyline s) npl \<rparr>"
      have inv: "points s'' = [] \<longrightarrow> new_distance s'' = 0"
        "points s'' \<noteq> [] \<longrightarrow> new_distance s'' = full - point_distance (last (points s''))"
        "\<forall>p\<in>set (points s''). (point_lat p, point_lng p) \<in> V"
        using Cons.prems(4) cV by (auto simp: s''_def init_stop_point_def)
      show ?thesis
      proof (cases b)
        case True
        with Cons.prems(1) z \<open>f_lt E _ _\<close> Inr have "s' = s''"
          by (simp add: Let_def s''_def)
        with inv show ?thesis by simp
      next
        case False
        with Cons.prems(1) z True Inr
        have run: "stop_points_loop E step full b npp npl zs s'' = Inr s'"
          by (simp add: Let_def s''_def)
        show ?thesis by (rule Cons.IH [OF run inv zsV])
      qed
    qed
  qed
qed

lemma aproximate_stop_points_degenerate:
  assumes "step_distance step \<le> 0 \<or> decode E (step_polyline step) = []"
  shows "aproximate_stop_points E step distance dbp full b = Inr ([fallback_point step full], 0)"
  using assms by (auto simp: aproximate_stop_points_def fallback_point_def Let_def)


lemma stop_points_loop_none:
  assumes "\<forall>k<length zs. \<not> f_lt E (stop_point_on_polyline s)
             (foldl (f_add E) (current_polyline s) (take (Suc k) (map snd zs)))"
  shows "stop_points_loop E step full b npp npl zs s =
           Inr (s\<lparr>current_polyline := foldl (f_add E) (current_polyline s) (map snd zs)\<rparr>)"
  using assms
proof (induction zs arbitrary: s)
  case Nil
  then show ?case by simp
next
  case (Cons z zs)
  obtain coordinate sector_length where z: "z = (coordinate, sector_length)" by (cases z)
  from Cons.prems [rule_format, of 0] z
  have no: "\<not> f_lt E (stop_point_on_polyline s) (f_add E (current_polyline s) sector_length)" by simp
  have "\<forall>k<length zs. \<not> f_lt E (stop_point_on_polyline (s\<lparr>current_polyline := f_add E (current_polyline s) sector_length\<rparr>))
             (foldl (f_add E) (current_polyline (s\<lparr>current_polyline := f_add E (current_polyline s) sector_length\<rparr>))
                (take (Suc k) (map snd zs)))"
  proof (intro allI impI)
    fix k assume "k < length zs"
    with Cons.prems [rule_format, of "Suc k"] z
    show "\<not> f_lt E (stop_point_on_polyline (s\<lparr>current_polyline := f_add E (current_polyline s) sector_length\<rparr>))
             (foldl (f_add E) (current_polyline (s\<lparr>current_polyline := f_add E (current_polyline s) sector_length\<rparr>))
                (take (Suc k) (map snd zs)))" by simp
  qed
  from Cons.IH [OF this] no z show ?case by (simp add: Let_def)
qed

lemma stop_points_loop_crossing:
  assumes "k < length zs"
    and "f_lt E (stop_point_on_polyline s)
           (foldl (f_add E) (current_polyline s) (take (Suc k) (map snd zs)))"
    and "\<forall>j<k. \<not> f_lt E (stop_point_on_polyline s)
           (foldl (f_add E) (current_polyline s) (take (Suc j) (map snd zs)))"
  shows "stop_points_loop E step full b npp npl zs s =
           (case f_to_int E (f_mul E (current_percent s) (f_of_int E (step_distance step))) of
              Inl e \<Rightarrow> Inl e
            | Inr d \<Rightarrow>
                (if b
                 then Inr \<lparr> points = points s @ [init_stop_point (fst (fst (zs ! k))) (snd (fst (zs ! k)))
                                                   (full - step_distance step + d)],
                            new_distance = step_distance step - d,
                            current_polyline = foldl (f_add E) (current_polyline s) (take (Suc k) (map snd zs)),
                            current_percent = f_add E (current_percent s) npp,
                            stop_point_on_polyline = f_add E (stop_point_on_polyline s) npl \<rparr>
                 else stop_points_loop E step full b npp npl (drop (Suc k) zs)
                        \<lparr> points = points s @ [init_stop_point (fst (fst (zs ! k))) (snd (fst (zs ! k)))
                                                   (full - step_distance step + d)],
                            new_distance = step_distance step - d,
                            current_polyline = foldl (f_add E) (current_polyline s) (take (Suc k) (map snd zs)),
                            current_percent = f_add E (current_percent s) npp,
                            stop_point_on_polyline = f_add E (stop_point_on_polyline s) npl \<rparr>))"
  using assms
proof (induction zs arbitrary: s k)
  case Nil
  then show ?case by simp
next
  case (Cons z zs)
  obtain coordinate sector_length where z: "z = (coordinate, sector_length)" by (cases z)
  show ?case
  proof (cases k)
    case 0
    with Cons.prems(2) z
    have "f_lt E (stop_point_on_polyline s) (f_add E (current_polyline s) sector_length)" by simp
    then show ?thesis using z 0
      by (simp add: Let_def init_stop_point_def split: sum.splits)
  next
    case (Suc k')
    let ?s = "s\<lparr>current_polyline := f_add E (current_polyline s) sector_length\<rparr>"
    from Cons.prems(3) [rule_format, of 0] Suc z
    have no: "\<not> f_lt E (stop_point_on_polyline s) (f_add E (current_polyline s) sector_length)" by simp
    from Cons.prems(1) Suc have a: "k' < length zs" by simp
    from Cons.prems(2) Suc z
    have b': "f_lt E (stop_point_on_polyline ?s)
           (foldl (f_add E) (current_polyline ?s) (take (Suc k') (map snd zs)))" by simp
    have c: "\<forall>j<k'. \<not> f_lt E (stop_point_on_polyline ?s)
           (foldl (f_add E) (current_polyline ?s) (take (Suc j) (map snd zs)))"
    proof (intro allI impI)
      fix j assume "j < k'"
      with Cons.prems(3) [rule_format, of "Suc j"] Suc z
      show "\<not> f_lt E (stop_point_on_polyline ?s)
           (foldl (f_add E) (current_polyline ?s) (take (Suc j) (map snd zs)))" by simp
    qed
    have step: "stop_points_loop E step full b npp npl (z # zs) s =
                  stop_points_loop E step full b npp npl zs ?s"
      using no z by (simp add: Let_def)
    show ?thesis unfolding step Cons.IH [OF a b' c] by (simp add: Suc z split: sum.splits)
  qed
qed

lemma aproximate_stop_points_scan:
  assumes "0 < step_distance step" and "decode E (step_polyline step) = cs" and "cs \<noteq> []"
  shows "aproximate_stop_points E step distance dbp full b =
           (case stop_points_loop E step full b (int_truediv E dbp (step_distance step))
                   (f_mul E (int_truediv E dbp (step_distance step)) (path_length E cs))
                   (zip cs (segments E cs))
                   \<lparr> points = [], new_distance = 0, current_polyline = f_zero E,
                     current_percent = first_stop_point_percent E step distance dbp,
                     stop_point_on_polyline = first_target E step distance dbp \<rparr> of
              Inl e \<Rightarrow> Inl e
            | Inr s \<Rightarrow> if points s = [] then Inr ([fallback_point step full], new_distance s)
                       else Inr (points s, new_distance s))"
  using assms
  by (simp add: aproximate_stop_points_def calculate_sector_lengths_eq Let_def fallback_point_def
        first_stop_point_percent_def first_target_def split: sum.splits)

lemma aproximate_stop_points_no_crossing:
  assumes sd: "0 < step_distance step" and coords: "decode E (step_polyline step) = cs"
    and ne: "cs \<noteq> []"
    and no: "no_crossing E (first_target E step distance dbp) (segments E cs)"
  shows "aproximate_stop_points E step distance dbp full b = Inr ([fallback_point step full], 0)"
proof -
  let ?s0 = "\<lparr> points = [], new_distance = 0, current_polyline = f_zero E,
                     current_percent = first_stop_point_percent E step distance dbp,
                     stop_point_on_polyline = first_target E step distance dbp \<rparr>"
  have "\<forall>k<length (zip cs (segments E cs)). \<not> f_lt E (stop_point_on_polyline ?s0)
             (foldl (f_add E) (current_polyline ?s0) (take (Suc k) (map snd (zip cs (segments E cs)))))"
    using no by (simp add: no_crossing_def list_all_iff zip_segments running_length_def length_segments)
  from stop_points_loop_none [OF this]
  show ?thesis unfolding aproximate_stop_points_scan [OF sd coords ne] by simp
qed

lemma aproximate_stop_points_crossing:
  assumes sd: "0 < step_distance step" and coords: "decode E (step_polyline step) = cs"
    and ne: "cs \<noteq> []"
    and cr: "first_crossing E (first_target E step distance dbp) (segments E cs) k"
  shows "(\<forall>e. f_to_int E (f_mul E (first_stop_point_percent E step distance dbp)
                         (f_of_int E (step_distance step))) = Inl e \<longrightarrow>
              aproximate_stop_points E step distance dbp full b = Inl e)
       \<and> (\<forall>d. f_to_int E (f_mul E (first_stop_point_percent E step distance dbp)
                         (f_of_int E (step_distance step))) = Inr d \<longrightarrow>
              (b \<longrightarrow> aproximate_stop_points E step distance dbp full b =
                       Inr ([init_stop_point (fst (cs ! k)) (snd (cs ! k))
                               (full - step_distance step + d)], step_distance step - d))
              \<and> (\<forall>ps nd. aproximate_stop_points E step distance dbp full b = Inr (ps, nd) \<longrightarrow>
                    ps \<noteq> []
                    \<and> hd ps = init_stop_point (fst (cs ! k)) (snd (cs ! k))
                                (full - step_distance step + d)
                    \<and> list_all (\<lambda>p. (point_lat p, point_lng p) \<in> set cs) ps
                    \<and> nd = full - point_distance (last ps)))"
proof -
  let ?s0 = "\<lparr> points = [], new_distance = 0, current_polyline = f_zero E,
                     current_percent = first_stop_point_percent E step distance dbp,
                     stop_point_on_polyline = first_target E step distance dbp \<rparr>"
  let ?zs = "zip cs (segments E cs)"
  let ?npp = "int_truediv E dbp (step_distance step)"
  let ?npl = "f_mul E (int_truediv E dbp (step_distance step)) (path_length E cs)"
  let ?x = "f_to_int E (f_mul E (first_stop_point_percent E step distance dbp)
                         (f_of_int E (step_distance step)))"
  from cr have k: "k < length ?zs"
    and hit: "f_lt E (stop_point_on_polyline ?s0)
           (foldl (f_add E) (current_polyline ?s0) (take (Suc k) (map snd ?zs)))"
    and miss: "\<forall>j<k. \<not> f_lt E (stop_point_on_polyline ?s0)
           (foldl (f_add E) (current_polyline ?s0) (take (Suc j) (map snd ?zs)))"
    by (simp_all add: first_crossing_def list_all_iff zip_segments running_length_def length_segments)
  note run = stop_points_loop_crossing [OF k hit miss, of step full b ?npp ?npl]
  from k have ck: "fst (?zs ! k) = cs ! k" by (simp add: zip_segments)
  note scan = aproximate_stop_points_scan [OF sd coords ne, of distance dbp full b]
  have err: "\<forall>e. ?x = Inl e \<longrightarrow> aproximate_stop_points E step distance dbp full b = Inl e"
    unfolding scan run by simp
  have ok: "\<forall>d. ?x = Inr d \<longrightarrow>
              (b \<longrightarrow> aproximate_stop_points E step distance dbp full b =
                       Inr ([init_stop_point (fst (cs ! k)) (snd (cs ! k))
                               (full - step_distance step + d)], step_distance step - d))
              \<and> (\<forall>ps nd. aproximate_stop_points E step distance dbp full b = Inr (ps, nd) \<longrightarrow>
                    ps \<noteq> []
                    \<and> hd ps = init_stop_point (fst (cs ! k)) (snd (cs ! k))
                                (full - step_distance step + d)
                    \<and> list_all (\<lambda>p. (point_lat p, point_lng p) \<in> set cs) ps
                    \<and> nd = full - point_distance (last ps))"
  proof (intro allI impI conjI)
    fix d assume d: "?x = Inr d" and b
    then show "aproximate_stop_points E step distance dbp full b =
                       Inr ([init_stop_point (fst (cs ! k)) (snd (cs ! k))
                               (full - step_distance step + d)], step_distance step - d)"
      unfolding scan run by (simp add: ck)
  next
    fix d ps nd assume d: "?x = Inr d"
      and res: "aproximate_stop_points E step distance dbp full b = Inr (ps, nd)"
    let ?p = "init_stop_point (fst (cs ! k)) (snd (cs ! k)) (full - step_distance step + d)"
    let ?s1 = "\<lparr> points = [?p], new_distance = step_distance step - d,
                  current_polyline = foldl (f_add E) (f_zero E) (take (Suc k) (map snd ?zs)),
                  current_percent = f_add E (first_stop_point_percent E step distance dbp) ?npp,
                  stop_point_on_polyline = f_add E (first_target E step distance dbp) ?npl \<rparr>"
    from k have "k < length cs" by (simp add: zip_segments)
    then have ckin: "cs ! k \<in> set cs" by simp
    have "ps \<noteq> [] \<and> hd ps = ?p
          \<and> list_all (\<lambda>p. (point_lat p, point_lng p) \<in> set cs) ps
          \<and> nd = full - point_distance (last ps)"
    proof (cases b)
      case True
      with d res have "ps = [?p]" and "nd = step_distance step - d"
        unfolding scan run by (simp_all add: ck)
      with ckin show ?thesis by (simp add: init_stop_point_def)
    next
      case False
      with d res obtain s' where
        r: "stop_points_loop E step full b ?npp ?npl (drop (Suc k) ?zs) ?s1 = Inr s'"
        and ps: "ps = (if points s' = [] then [fallback_point step full] else points s')"
        and nd: "nd = new_distance s'"
        unfolding scan run by (auto simp: ck split: sum.splits if_splits)
      from stop_points_loop_prefix [OF r] obtain more where pm: "points s' = ?p # more" by auto
      have sub: "fst ` set (drop (Suc k) ?zs) \<subseteq> set cs"
        using set_drop_subset [of "Suc k" "zip cs (segments E cs)"] by (auto dest: set_zip_leftD)
      have "(points s' = [] \<longrightarrow> new_distance s' = 0)
       \<and> (points s' \<noteq> [] \<longrightarrow> new_distance s' = full - point_distance (last (points s')))
       \<and> (\<forall>p\<in>set (points s'). (point_lat p, point_lng p) \<in> set cs)"
        by (rule stop_points_loop_shape [OF r _ _ _ sub]) (use ckin in \<open>simp_all add: init_stop_point_def\<close>)
      with pm ps nd show ?thesis by (simp add: list_all_iff)
    qed
    then show "ps \<noteq> []" and "hd ps = ?p"
      and "list_all (\<lambda>p. (point_lat p, point_lng p) \<in> set cs) ps"
      and "nd = full - point_distance (last ps)" by simp_all
  qed
  from err ok show ?thesis by blast
qed

lemma crossing_cases:
  "no_crossing E target sl \<or> (\<exists>k. first_crossing E target sl k)"
proof (cases "no_crossing E target sl")
  case True
  then show ?thesis by simp
next
  case False
  define P where "P = (\<lambda>j. j < length sl \<and> f_lt E target (running_length E sl j))"
  from False obtain j0 where "j0 \<in> set [0..<length sl]"
    and "f_lt E target (running_length E sl j0)"
    unfolding no_crossing_def list_all_iff by blast
  then have "P j0" by (simp add: P_def)
  then have "P (Least P)" by (rule LeastI)
  then have k1: "Least P < length sl" and k2: "f_lt E target (running_length E sl (Least P))"
    unfolding P_def by blast+
  have k3: "\<forall>j\<in>set [0..<Least P]. \<not> f_lt E target (running_length E sl j)"
  proof
    fix j assume "j \<in> set [0..<Least P]"
    then have jk: "j < Least P" by simp
    then have "\<not> P j" by (rule not_less_Least)
    moreover from jk k1 have "j < length sl" by simp
    ultimately show "\<not> f_lt E target (running_length E sl j)" unfolding P_def by blast
  qed
  from k1 k2 k3 have "first_crossing E target sl (Least P)"
    unfolding first_crossing_def list_all_iff by blast
  then show ?thesis by blast
qed

text \<open>
  C3, as the code has it. A step with a non-positive distance or an empty decoded
  polyline has no interior point: when the running distance has reached the spacing at
  such a step it contributes exactly the fallback point, its end location stamped with
  \<open>full_distance\<close>, the running distance restarting at 0, and below the spacing it
  contributes nothing; the scan then goes on with the remaining steps, unless
  \<open>only_first\<close> ends it at the fallback point. A step of positive distance with a
  non-empty polyline contributes the fallback point alone exactly when no running sum
  of its sector lengths exceeds the first target. When the running sum first exceeds it
  at sector \<open>k\<close>, the first point is vertex \<open>k\<close> stamped with
  \<open>full_distance - step.distance + int(first_fraction * step.distance)\<close>, it is the
  only point under \<open>only_first\<close>, every point is at a vertex and the running distance
  restarts at \<open>full_distance\<close> less the last stamp; an error of \<open>int()\<close> is the
  result. One of the two cases holds.
\<close>

theorem C3_degenerate_steps:
  assumes coords: "decode E (step_polyline step) = cs"
  shows "(step_distance step \<le> 0 \<or> cs = [] \<longrightarrow>
            aproximate_stop_points E step distance dbp full b = Inr ([fallback_point step full], 0)
            \<and> locate_stop_points_loop E dbp b (step # rest) (pts, full0, r) =
                (if dbp \<le> r + step_distance step
                 then (if b
                       then Inr (pts @ [fallback_point step (full0 + step_distance step)],
                                 full0 + step_distance step, 0)
                       else locate_stop_points_loop E dbp b rest
                              (pts @ [fallback_point step (full0 + step_distance step)],
                               full0 + step_distance step, 0))
                 else locate_stop_points_loop E dbp b rest
                        (pts, full0 + step_distance step, r + step_distance step)))
       \<and> (0 < step_distance step \<and> cs \<noteq> []
            \<and> no_crossing E (first_target E step distance dbp) (segments E cs) \<longrightarrow>
            aproximate_stop_points E step distance dbp full b = Inr ([fallback_point step full], 0))
       \<and> (0 < step_distance step \<and> cs \<noteq> []
            \<and> first_crossing E (first_target E step distance dbp) (segments E cs) k \<longrightarrow>
            (\<forall>e. f_to_int E (f_mul E (first_stop_point_percent E step distance dbp)
                                (f_of_int E (step_distance step))) = Inl e \<longrightarrow>
                   aproximate_stop_points E step distance dbp full b = Inl e)
            \<and> (\<forall>d. f_to_int E (f_mul E (first_stop_point_percent E step distance dbp)
                                (f_of_int E (step_distance step))) = Inr d \<longrightarrow>
                   (b \<longrightarrow> aproximate_stop_points E step distance dbp full b =
                            Inr ([init_stop_point (fst (cs ! k)) (snd (cs ! k))
                                    (full - step_distance step + d)], step_distance step - d))
                   \<and> (\<forall>ps nd. aproximate_stop_points E step distance dbp full b = Inr (ps, nd) \<longrightarrow>
                         ps \<noteq> []
                         \<and> hd ps = init_stop_point (fst (cs ! k)) (snd (cs ! k))
                                     (full - step_distance step + d)
                         \<and> list_all (\<lambda>p. (point_lat p, point_lng p) \<in> set cs) ps
                         \<and> nd = full - point_distance (last ps))))
       \<and> (no_crossing E (first_target E step distance dbp) (segments E cs)
            \<or> (\<exists>j. first_crossing E (first_target E step distance dbp) (segments E cs) j))"
proof (intro conjI impI)
  assume deg: "step_distance step \<le> 0 \<or> cs = []"
  then have d: "step_distance step \<le> 0 \<or> decode E (step_polyline step) = []"
    using coords by simp
  show "aproximate_stop_points E step distance dbp full b = Inr ([fallback_point step full], 0)"
    by (rule aproximate_stop_points_degenerate [OF d])
  show "locate_stop_points_loop E dbp b (step # rest) (pts, full0, r) =
                (if dbp \<le> r + step_distance step
                 then (if b
                       then Inr (pts @ [fallback_point step (full0 + step_distance step)],
                                 full0 + step_distance step, 0)
                       else locate_stop_points_loop E dbp b rest
                              (pts @ [fallback_point step (full0 + step_distance step)],
                               full0 + step_distance step, 0))
                 else locate_stop_points_loop E dbp b rest
                        (pts, full0 + step_distance step, r + step_distance step))"
    by (simp add: Let_def aproximate_stop_points_degenerate [OF d])
next
  assume "0 < step_distance step \<and> cs \<noteq> []
            \<and> no_crossing E (first_target E step distance dbp) (segments E cs)"
  then show "aproximate_stop_points E step distance dbp full b = Inr ([fallback_point step full], 0)"
    using aproximate_stop_points_no_crossing [OF _ coords] by blast
next
  assume a: "0 < step_distance step \<and> cs \<noteq> []
            \<and> first_crossing E (first_target E step distance dbp) (segments E cs) k"
  then have sd: "0 < step_distance step" and ne: "cs \<noteq> []"
    and cr: "first_crossing E (first_target E step distance dbp) (segments E cs) k" by simp_all
  note c = aproximate_stop_points_crossing [OF sd coords ne cr, of full b]
  from c show "\<forall>e. f_to_int E (f_mul E (first_stop_point_percent E step distance dbp)
                                (f_of_int E (step_distance step))) = Inl e \<longrightarrow>
                   aproximate_stop_points E step distance dbp full b = Inl e" by (rule conjunct1)
  from c show "\<forall>d. f_to_int E (f_mul E (first_stop_point_percent E step distance dbp)
                                (f_of_int E (step_distance step))) = Inr d \<longrightarrow>
                   (b \<longrightarrow> aproximate_stop_points E step distance dbp full b =
                            Inr ([init_stop_point (fst (cs ! k)) (snd (cs ! k))
                                    (full - step_distance step + d)], step_distance step - d))
                   \<and> (\<forall>ps nd. aproximate_stop_points E step distance dbp full b = Inr (ps, nd) \<longrightarrow>
                         ps \<noteq> []
                         \<and> hd ps = init_stop_point (fst (cs ! k)) (snd (cs ! k))
                                     (full - step_distance step + d)
                         \<and> list_all (\<lambda>p. (point_lat p, point_lng p) \<in> set cs) ps
                         \<and> nd = full - point_distance (last ps))" by (rule conjunct2)
next
  show "no_crossing E (first_target E step distance dbp) (segments E cs)
            \<or> (\<exists>j. first_crossing E (first_target E step distance dbp) (segments E cs) j)"
    by (rule crossing_cases)
qed

lemma hollow_decode: "decode sample_env (step_polyline hollow_step) = []"
  by (simp add: eval_defs hollow_step_def)

lemma sample_first_step_geometry:
  "decode sample_env (step_polyline (route_steps sample_route ! 0)) = [(Fin 0, Fin 0), (Fin 4, Fin 0), (Fin 4, Fin 4)]"
  by (simp add: eval_defs)

lemma unit_decode: "decode sample_env (step_polyline unit_step) = [(Fin 0, Fin 0), (Fin 1, Fin 0)]"
  by (simp add: eval_defs unit_step_def)

theorem C3_degenerate_steps_witness:
  "decode sample_env (step_polyline hollow_step) = []
   \<and> aproximate_stop_points sample_env hollow_step 100 50 100 False =
       Inr ([\<lparr>point_lat = Fin 1, point_lng = Fin 0, point_distance = 100\<rparr>], 0)
   \<and> locate_stop_points_loop sample_env 50 False [hollow_step] ([], 0, 0) =
       Inr ([\<lparr>point_lat = Fin 1, point_lng = Fin 0, point_distance = 100\<rparr>], 100, 0)
   \<and> 0 < step_distance unit_step
   \<and> no_crossing sample_env (first_target sample_env unit_step 1 1) (segments sample_env [(Fin 0, Fin 0), (Fin 1, Fin 0)])
   \<and> aproximate_stop_points sample_env unit_step 1 1 1 False =
       Inr ([\<lparr>point_lat = Fin 1, point_lng = Fin 0, point_distance = 1\<rparr>], 0)
   \<and> first_crossing sample_env (first_target sample_env (route_steps sample_route ! 0) 800 200)
        (segments sample_env [(Fin 0, Fin 0), (Fin 4, Fin 0), (Fin 4, Fin 4)]) 0
   \<and> aproximate_stop_points sample_env (route_steps sample_route ! 0) 800 200 800 True =
       Inr ([\<lparr>point_lat = Fin 0, point_lng = Fin 0, point_distance = 200\<rparr>], 600)"
proof -
  have f: "fallback_point hollow_step 100 = \<lparr>point_lat = Fin 1, point_lng = Fin 0, point_distance = 100\<rparr>"
    by (simp add: fallback_point_def hollow_step_def loc_def init_stop_point_def)
  have d: "step_distance hollow_step = 100" by (simp add: hollow_step_def)
  from C3_degenerate_steps [OF hollow_decode, where distance = 100 and dbp = 50 and full = 100
      and b = False and rest = "[]" and pts = "[]" and ?full0.0 = 0 and r = 0]
  have h1: "aproximate_stop_points sample_env hollow_step 100 50 100 False =
          Inr ([fallback_point hollow_step 100], 0)"
    and h2: "locate_stop_points_loop sample_env 50 False [hollow_step] ([], 0, 0) =
          Inr ([fallback_point hollow_step 100], 100, 0)"
    by (simp_all add: d)
  have u0: "0 < step_distance unit_step" by (simp add: unit_step_def)
  have u1: "no_crossing sample_env (first_target sample_env unit_step 1 1)
              (segments sample_env [(Fin 0, Fin 0), (Fin 1, Fin 0)])"
    by (simp add: no_crossing_def first_target_def first_stop_point_percent_def path_length_def
        segments_def segment_length_def running_length_def eval_defs unit_step_def)
  have uf: "fallback_point unit_step 1 = \<lparr>point_lat = Fin 1, point_lng = Fin 0, point_distance = 1\<rparr>"
    by (simp add: fallback_point_def unit_step_def loc_def init_stop_point_def)
  from C3_degenerate_steps [OF unit_decode, where distance = 1 and dbp = 1 and full = 1 and b = False] u0 u1
  have u2: "aproximate_stop_points sample_env unit_step 1 1 1 False = Inr ([fallback_point unit_step 1], 0)"
    by simp
  have s0: "0 < step_distance (route_steps sample_route ! 0)"
    "step_distance (route_steps sample_route ! 0) = 800"
    by (simp_all add: sample_route_def sample_steps_def)
  have s1: "first_crossing sample_env (first_target sample_env (route_steps sample_route ! 0) 800 200)
        (segments sample_env [(Fin 0, Fin 0), (Fin 4, Fin 0), (Fin 4, Fin 4)]) 0"
    by (simp add: first_crossing_def first_target_def first_stop_point_percent_def path_length_def
        segments_def segment_length_def running_length_def eval_defs sample_route_def sample_steps_def)
  have s2: "f_to_int sample_env (f_mul sample_env (first_stop_point_percent sample_env (route_steps sample_route ! 0) 800 200)
                                (f_of_int sample_env (step_distance (route_steps sample_route ! 0)))) = Inr 200"
    by (simp add: first_stop_point_percent_def eval_defs sample_route_def sample_steps_def py_trunc_def)
  from C3_degenerate_steps [OF sample_first_step_geometry(1), where distance = 800 and dbp = 200
      and full = 800 and b = True and k = 0] s0(1) s1 s2
  have s3: "aproximate_stop_points sample_env (route_steps sample_route ! 0) 800 200 800 True =
       Inr ([init_stop_point (fst ([(Fin 0, Fin 0), (Fin 4, Fin 0), (Fin 4, Fin 4)] ! 0))
               (snd ([(Fin 0, Fin 0), (Fin 4, Fin 0), (Fin 4, Fin 4)] ! 0))
               (800 - step_distance (route_steps sample_route ! 0) + 200)],
            step_distance (route_steps sample_route ! 0) - 200)"
    by simp
  from hollow_decode h1 h2 u0 u1 u2 s1 s3 show ?thesis
    by (simp add: f uf s0(2) init_stop_point_def)
qed

text \<open>
  The claim as stated fails: a step with an empty decoded polyline contributes the
  fallback point, and so does a step of zero distance reached with a running distance
  of 112 at spacing 16.
\<close>

theorem C3_counterexample:
  "decode sample_env (step_polyline hollow_step) = []
   \<and> locate_stop_points sample_env [hollow_step] 50 0 False =
       Inr ([\<lparr>point_lat = Fin 1, point_lng = Fin 0, point_distance = 100\<rparr>], 100, 0)
   \<and> step_distance zero_step = 0
   \<and> locate_stop_points sample_env [long_step, zero_step] 16 0 False =
       Inr ([\<lparr>point_lat = Fin 0, point_lng = Fin 0, point_distance = 16\<rparr>,
             \<lparr>point_lat = Fin 1, point_lng = Fin 0, point_distance = 128\<rparr>], 128, 0)"
  by (simp add: eval_defs hollow_step_def long_step_def zero_step_def)

section \<open>Properties: the order of the computed distances\<close>

lemma ordered_on_trans:
  "ordered_on E D \<Longrightarrow> a \<in> D \<Longrightarrow> b \<in> D \<Longrightarrow> c \<in> D \<Longrightarrow>
   f_lt E a b \<Longrightarrow> f_lt E b c \<Longrightarrow> f_lt E a c"
  unfolding ordered_on_def by blast

lemma ordered_on_neg_trans:
  "ordered_on E D \<Longrightarrow> a \<in> D \<Longrightarrow> b \<in> D \<Longrightarrow> c \<in> D \<Longrightarrow>
   \<not> f_lt E a b \<Longrightarrow> \<not> f_lt E b c \<Longrightarrow> \<not> f_lt E a c"
  unfolding ordered_on_def by blast

lemma ordered_on_irrefl: "ordered_on E D \<Longrightarrow> a \<in> D \<Longrightarrow> \<not> f_lt E a a"
  unfolding ordered_on_def by blast

lemma locate_coordinate_loop_Cons:
  "locate_coordinate_loop E c ind (x # rest) (b, m) =
     (if f_lt E (vertex_distance E c x) m
      then locate_coordinate_loop E c (Suc ind) rest (Some ind, vertex_distance E c x)
      else locate_coordinate_loop E c (Suc ind) rest (b, m))"
  by (simp add: Let_def vertex_distance_def)

lemma x_lt_ordered: "ordered_on (exact_env dec enc) D"
proof -
  have irr: "\<And>a. \<not> x_lt a a"
  proof -
    fix a show "\<not> x_lt a a" by (cases a) simp_all
  qed
  have tr: "\<And>a b c. x_lt a b \<Longrightarrow> x_lt b c \<Longrightarrow> x_lt a c"
  proof -
    fix a b c show "x_lt a b \<Longrightarrow> x_lt b c \<Longrightarrow> x_lt a c"
      by (cases a; cases b; cases c) simp_all
  qed
  have ntr: "\<And>a b c. \<not> x_lt a b \<Longrightarrow> \<not> x_lt b c \<Longrightarrow> \<not> x_lt a c"
  proof -
    fix a b c show "\<not> x_lt a b \<Longrightarrow> \<not> x_lt b c \<Longrightarrow> \<not> x_lt a c"
      by (cases a; cases b; cases c) simp_all
  qed
  have lt: "f_lt (exact_env dec enc) = x_lt" by (simp add: exact_env_def)
  show ?thesis
    unfolding ordered_on_def lt
  proof (intro conjI ballI impI)
    fix a show "\<not> x_lt a a" by (rule irr)
  next
    fix a b c assume "x_lt a b \<and> x_lt b c"
    then show "x_lt a c" using tr by blast
  next
    fix a b c assume "\<not> x_lt a b \<and> \<not> x_lt b c"
    then show "\<not> x_lt a c" using ntr by blast
  qed
qed

section \<open>Properties: partial-step reconstruction\<close>

lemma nearest_first_unique:
  assumes "nearest_first E c cs i" and "nearest_first E c cs j"
  shows "i = j"
proof (rule ccontr)
  assume ne: "i \<noteq> j"
  have aux: "\<And>a b. nearest_first E c cs a \<Longrightarrow> nearest_first E c cs b \<Longrightarrow> a < b \<Longrightarrow> False"
  proof -
    fix a b assume A: "nearest_first E c cs a" and B: "nearest_first E c cs b" and lt: "a < b"
    from B have bl: "b < length cs" by (simp add: nearest_first_def)
    with lt have "cs ! a \<in> set (take b cs)" by (auto simp: in_set_conv_nth intro!: exI [of _ a])
    with B have "f_lt E (vertex_distance E c (cs ! b)) (vertex_distance E c (cs ! a))"
      by (simp add: nearest_first_def list_all_iff)
    moreover from A bl have "\<not> f_lt E (vertex_distance E c (cs ! b)) (vertex_distance E c (cs ! a))"
      by (simp add: nearest_first_def list_all_iff)
    ultimately show False by simp
  qed
  from ne have "i < j \<or> j < i" by auto
  with aux assms show False by blast
qed

lemma locate_coordinate_loop_nearest:
  assumes ord: "ordered_on E D" and fin: "\<forall>a\<in>D. f_lt E a (f_inf E)"
    and inD: "\<forall>w\<in>set (seen @ todo). vertex_distance E c w \<in> D"
    and inv: "(seen = [] \<and> acc = (None, f_inf E))
              \<or> (\<exists>i. acc = (Some i, vertex_distance E c (seen ! i)) \<and> nearest_first E c seen i)"
  shows "(seen @ todo = [] \<and> locate_coordinate_loop E c (length seen) todo acc = (None, f_inf E))
         \<or> (\<exists>i. locate_coordinate_loop E c (length seen) todo acc
                  = (Some i, vertex_distance E c ((seen @ todo) ! i))
               \<and> nearest_first E c (seen @ todo) i)"
  using inD inv
proof (induction todo arbitrary: seen acc)
  case Nil
  then show ?case by auto
next
  case (Cons x rest)
  let ?d = "vertex_distance E c"
  from Cons.prems(1) have xD: "?d x \<in> D" and sD: "\<forall>w\<in>set seen. ?d w \<in> D"
    and inD': "\<forall>w\<in>set ((seen @ [x]) @ rest). ?d w \<in> D" by simp_all
  from ord xD have irr: "\<not> f_lt E (?d x) (?d x)" by (rule ordered_on_irrefl)
  have step: "\<exists>acc'. locate_coordinate_loop E c (length seen) (x # rest) acc
                 = locate_coordinate_loop E c (length (seen @ [x])) rest acc'
             \<and> (\<exists>i. acc' = (Some i, ?d ((seen @ [x]) ! i)) \<and> nearest_first E c (seen @ [x]) i)"
  proof -
    from Cons.prems(2) show ?thesis
    proof (elim disjE exE conjE)
      assume e: "seen = []" and a: "acc = (None, f_inf E)"
      from fin xD have "f_lt E (?d x) (f_inf E)" by simp
      then have "locate_coordinate_loop E c (length seen) (x # rest) acc
                 = locate_coordinate_loop E c (length (seen @ [x])) rest (Some 0, ?d x)"
        unfolding a locate_coordinate_loop_Cons by (simp add: e)
      moreover have "nearest_first E c (seen @ [x]) 0"
        using irr by (simp add: nearest_first_def e)
      ultimately show ?thesis by (intro exI [of _ "(Some 0, ?d x)"] conjI exI [of _ 0]) (simp_all add: e)
    next
      fix i assume a: "acc = (Some i, ?d (seen ! i))" and nf: "nearest_first E c seen i"
      from nf have il: "i < length seen"
        and mn: "\<forall>w\<in>set seen. \<not> f_lt E (?d w) (?d (seen ! i))"
        and fs: "\<forall>w\<in>set (take i seen). f_lt E (?d (seen ! i)) (?d w)"
        by (simp_all add: nearest_first_def list_all_iff)
      from il sD have iD: "?d (seen ! i) \<in> D" by simp
      show ?thesis
      proof (cases "f_lt E (?d x) (?d (seen ! i))")
        case True
        then have run: "locate_coordinate_loop E c (length seen) (x # rest) acc
                 = locate_coordinate_loop E c (length (seen @ [x])) rest (Some (length seen), ?d x)"
          unfolding a locate_coordinate_loop_Cons by simp
        have m1: "\<forall>w\<in>set seen. \<not> f_lt E (?d w) (?d x)"
        proof
          fix w assume w: "w \<in> set seen"
          with sD have wD: "?d w \<in> D" by simp
          show "\<not> f_lt E (?d w) (?d x)"
          proof
            assume "f_lt E (?d w) (?d x)"
            from ordered_on_trans [OF ord wD xD iD this True] mn w show False by simp
          qed
        qed
        have m2: "\<forall>w\<in>set seen. f_lt E (?d x) (?d w)"
        proof
          fix w assume w: "w \<in> set seen"
          with sD have wD: "?d w \<in> D" by simp
          show "f_lt E (?d x) (?d w)"
          proof (rule ccontr)
            assume n: "\<not> f_lt E (?d x) (?d w)"
            from mn w have "\<not> f_lt E (?d w) (?d (seen ! i))" by simp
            from ordered_on_neg_trans [OF ord xD wD iD n this] True show False by simp
          qed
        qed
        have "nearest_first E c (seen @ [x]) (length seen)"
          using m1 m2 irr by (simp add: nearest_first_def list_all_iff)
        with run show ?thesis
          by (intro exI [of _ "(Some (length seen), ?d x)"] conjI exI [of _ "length seen"]) simp_all
      next
        case False
        then have run: "locate_coordinate_loop E c (length seen) (x # rest) acc
                 = locate_coordinate_loop E c (length (seen @ [x])) rest (Some i, ?d (seen ! i))"
          unfolding a locate_coordinate_loop_Cons by simp
        have "nearest_first E c (seen @ [x]) i"
          using il mn fs False by (simp add: nearest_first_def list_all_iff nth_append)
        with run il show ?thesis
          by (intro exI [of _ "(Some i, ?d (seen ! i))"] conjI exI [of _ i]) (simp_all add: nth_append)
      qed
    qed
  qed
  then obtain acc' where run: "locate_coordinate_loop E c (length seen) (x # rest) acc
                 = locate_coordinate_loop E c (length (seen @ [x])) rest acc'"
    and inv': "\<exists>i. acc' = (Some i, ?d ((seen @ [x]) ! i)) \<and> nearest_first E c (seen @ [x]) i"
    by blast
  from inv' have "(seen @ [x] = [] \<and> acc' = (None, f_inf E))
              \<or> (\<exists>i. acc' = (Some i, ?d ((seen @ [x]) ! i)) \<and> nearest_first E c (seen @ [x]) i)"
    by blast
  from Cons.IH [OF inD' this] show ?case unfolding run by simp
qed

lemma locate_coordinate_nearest:
  assumes ord: "ordered_on E (vertex_distance E c ` set cs)"
    and fin: "\<forall>a\<in>vertex_distance E c ` set cs. f_lt E a (f_inf E)"
    and ne: "cs \<noteq> []"
  shows "\<exists>i. locate_coordinate E cs c = (Some i, vertex_distance E c (cs ! i))
             \<and> nearest_first E c cs i"
proof -
  have "\<forall>w\<in>set ([] @ cs). vertex_distance E c w \<in> vertex_distance E c ` set cs" by simp
  from locate_coordinate_loop_nearest [OF ord fin this, of "(None, f_inf E)"] ne
  show ?thesis by (simp add: locate_coordinate_def)
qed

text \<open>
  C4, as the code has it, for a comparison that is a strict weak order on the computed
  vertex distances, all below \<open>inf\<close>. For an empty polyline the result is \<open>None\<close>.
  Otherwise the located vertex is the one at index \<open>i\<close>, the first vertex at the
  smallest distance, and no other index is so. The result is \<open>None\<close> exactly when
  \<open>i\<close> is the last index, or the step's distance is not positive, or the polyline
  length is not positive, or the remaining polyline length from vertex \<open>i\<close> is not
  positive. In every other case it is the error of \<open>int()\<close>, or the partial step from
  vertex \<open>i\<close> to the last vertex, with the re-encoded polyline from vertex \<open>i\<close> on,
  the distance \<open>int(step.distance / polyline_length * remaining_length)\<close> and no
  duration.
\<close>

theorem C4_left_step:
  assumes coords: "decode E (step_polyline step) = cs"
    and ord: "ordered_on E (vertex_distance E coordinate ` set cs)"
    and fin: "\<forall>a\<in>vertex_distance E coordinate ` set cs. f_lt E a (f_inf E)"
  shows "(cs = [] \<longrightarrow> calculate_left_step E step coordinate = Inr None)
       \<and> (cs \<noteq> [] \<longrightarrow>
            (\<exists>i. nearest_first E coordinate cs i
               \<and> (\<forall>j. nearest_first E coordinate cs j \<longrightarrow> j = i)
               \<and> (calculate_left_step E step coordinate = Inr None \<longleftrightarrow>
                    Suc i = length cs \<or> step_distance step \<le> 0
                    \<or> \<not> f_lt E (f_of_int E 0) (path_length E cs)
                    \<or> \<not> f_lt E (f_zero E) (remaining_length E (segments E cs) i))
               \<and> (Suc i \<noteq> length cs \<and> 0 < step_distance step
                    \<and> f_lt E (f_of_int E 0) (path_length E cs)
                    \<and> f_lt E (f_zero E) (remaining_length E (segments E cs) i) \<longrightarrow>
                  calculate_left_step E step coordinate =
                    (case f_to_int E (f_mul E (f_div E (f_of_int E (step_distance step))
                                                   (path_length E cs))
                                           (remaining_length E (segments E cs) i)) of
                       Inl e \<Rightarrow> Inl e
                     | Inr d \<Rightarrow>
                         Inr (Some \<lparr> step_start_location = \<lparr> lat = fst (cs ! i), lng = snd (cs ! i) \<rparr>,
                                     step_end_location = \<lparr> lat = fst (last cs), lng = snd (last cs) \<rparr>,
                                     step_distance = d,
                                     step_duration = None,
                                     step_polyline = encode E (drop i cs) \<rparr>)))))"
proof (intro conjI impI)
  assume "cs = []"
  then show "calculate_left_step E step coordinate = Inr None"
    unfolding calculate_left_step_def coords by (simp add: locate_coordinate_def Let_def split: prod.splits)
next
  assume ne: "cs \<noteq> []"
  from locate_coordinate_nearest [OF ord fin ne]
  obtain i where lc: "locate_coordinate E cs coordinate = (Some i, vertex_distance E coordinate (cs ! i))"
    and nf: "nearest_first E coordinate cs i" by blast
  have idx: "int i \<noteq> int (length cs) - 1 \<longleftrightarrow> Suc i \<noteq> length cs" by auto
  have uniq: "\<forall>j. nearest_first E coordinate cs j \<longrightarrow> j = i"
    using nearest_first_unique [OF _ nf] by blast
  have none: "calculate_left_step E step coordinate = Inr None \<longleftrightarrow>
                    Suc i = length cs \<or> step_distance step \<le> 0
                    \<or> \<not> f_lt E (f_of_int E 0) (path_length E cs)
                    \<or> \<not> f_lt E (f_zero E) (remaining_length E (segments E cs) i)"
    unfolding calculate_left_step_def coords calculate_sector_lengths_eq lc Let_def remaining_length_def
    by (auto simp: idx split: sum.splits)
  have some: "Suc i \<noteq> length cs \<and> 0 < step_distance step
                    \<and> f_lt E (f_of_int E 0) (path_length E cs)
                    \<and> f_lt E (f_zero E) (remaining_length E (segments E cs) i) \<longrightarrow>
                  calculate_left_step E step coordinate =
                    (case f_to_int E (f_mul E (f_div E (f_of_int E (step_distance step))
                                                   (path_length E cs))
                                           (remaining_length E (segments E cs) i)) of
                       Inl e \<Rightarrow> Inl e
                     | Inr d \<Rightarrow>
                         Inr (Some \<lparr> step_start_location = \<lparr> lat = fst (cs ! i), lng = snd (cs ! i) \<rparr>,
                                     step_end_location = \<lparr> lat = fst (last cs), lng = snd (last cs) \<rparr>,
                                     step_distance = d,
                                     step_duration = None,
                                     step_polyline = encode E (drop i cs) \<rparr>))"
    unfolding calculate_left_step_def coords calculate_sector_lengths_eq lc Let_def remaining_length_def
    by (simp add: idx)
  from nf uniq none some
  show "\<exists>i. nearest_first E coordinate cs i
               \<and> (\<forall>j. nearest_first E coordinate cs j \<longrightarrow> j = i)
               \<and> (calculate_left_step E step coordinate = Inr None \<longleftrightarrow>
                    Suc i = length cs \<or> step_distance step \<le> 0
                    \<or> \<not> f_lt E (f_of_int E 0) (path_length E cs)
                    \<or> \<not> f_lt E (f_zero E) (remaining_length E (segments E cs) i))
               \<and> (Suc i \<noteq> length cs \<and> 0 < step_distance step
                    \<and> f_lt E (f_of_int E 0) (path_length E cs)
                    \<and> f_lt E (f_zero E) (remaining_length E (segments E cs) i) \<longrightarrow>
                  calculate_left_step E step coordinate =
                    (case f_to_int E (f_mul E (f_div E (f_of_int E (step_distance step))
                                                   (path_length E cs))
                                           (remaining_length E (segments E cs) i)) of
                       Inl e \<Rightarrow> Inl e
                     | Inr d \<Rightarrow>
                         Inr (Some \<lparr> step_start_location = \<lparr> lat = fst (cs ! i), lng = snd (cs ! i) \<rparr>,
                                     step_end_location = \<lparr> lat = fst (last cs), lng = snd (last cs) \<rparr>,
                                     step_distance = d,
                                     step_duration = None,
                                     step_polyline = encode E (drop i cs) \<rparr>)))"
    by (intro exI [of _ i] conjI)
qed

theorem C4_left_step_witness:
  "nearest_first sample_env (loc 4 0) [(Fin 0, Fin 0), (Fin 4, Fin 0), (Fin 4, Fin 4)] 1
   \<and> path_length sample_env [(Fin 0, Fin 0), (Fin 4, Fin 0), (Fin 4, Fin 4)] = Fin 8
   \<and> remaining_length sample_env (segments sample_env [(Fin 0, Fin 0), (Fin 4, Fin 0), (Fin 4, Fin 4)]) 1 = Fin 4
   \<and> f_to_int sample_env (f_mul sample_env (f_div sample_env (f_of_int sample_env 800) (Fin 8)) (Fin 4)) = Inr 400
   \<and> calculate_left_step sample_env (route_steps sample_route ! 0) (loc 4 0) =
       Inr (Some \<lparr> step_start_location = \<lparr> lat = Fin 4, lng = Fin 0 \<rparr>,
                    step_end_location = \<lparr> lat = Fin 4, lng = Fin 4 \<rparr>,
                    step_distance = 400,
                    step_duration = None,
                    step_polyline = ''_glW??_glW'' \<rparr>)
   \<and> decode sample_env (step_polyline hollow_step) = []
   \<and> calculate_left_step sample_env hollow_step (loc 4 0) = Inr None"
proof -
  let ?cs = "[(Fin 0, Fin 0), (Fin 4, Fin 0), (Fin 4, Fin 4)]"
  have ord: "\<And>cs. ordered_on sample_env (vertex_distance sample_env (loc 4 0) ` set cs)"
    unfolding sample_env_def by (rule x_lt_ordered)
  have fin: "\<forall>a\<in>vertex_distance sample_env (loc 4 0) ` set ?cs. f_lt sample_env a (f_inf sample_env)"
    by (simp add: eval_defs vertex_distance_def loc_def)
  have fin0: "\<forall>a\<in>vertex_distance sample_env (loc 4 0) ` set []. f_lt sample_env a (f_inf sample_env)"
    by simp
  have nf: "nearest_first sample_env (loc 4 0) ?cs 1"
    by (simp add: nearest_first_def eval_defs vertex_distance_def loc_def)
  have pl: "path_length sample_env ?cs = Fin 8"
    by (simp add: path_length_def segments_def segment_length_def eval_defs)
  have rl: "remaining_length sample_env (segments sample_env ?cs) 1 = Fin 4"
    by (simp add: remaining_length_def segments_def segment_length_def eval_defs)
  have d: "f_to_int sample_env (f_mul sample_env (f_div sample_env (f_of_int sample_env 800) (Fin 8)) (Fin 4)) = Inr 400"
    by (simp add: eval_defs)
  have sd: "step_distance (route_steps sample_route ! 0) = 800"
    by (simp add: sample_route_def sample_steps_def)
  have g: "f_lt sample_env (f_of_int sample_env 0) (Fin 8)" "f_lt sample_env (f_zero sample_env) (Fin 4)"
    by (simp_all add: eval_defs)
  have enc: "encode sample_env (drop 1 ?cs) = ''_glW??_glW''"
    by (simp add: eval_defs)
  from C4_left_step [OF sample_first_step_geometry(1) ord fin]
  obtain i where u: "\<forall>j. nearest_first sample_env (loc 4 0) ?cs j \<longrightarrow> j = i"
    and r: "Suc i \<noteq> length ?cs \<and> 0 < step_distance (route_steps sample_route ! 0)
                    \<and> f_lt sample_env (f_of_int sample_env 0) (path_length sample_env ?cs)
                    \<and> f_lt sample_env (f_zero sample_env) (remaining_length sample_env (segments sample_env ?cs) i) \<longrightarrow>
                  calculate_left_step sample_env (route_steps sample_route ! 0) (loc 4 0) =
                    (case f_to_int sample_env (f_mul sample_env (f_div sample_env (f_of_int sample_env (step_distance (route_steps sample_route ! 0)))
                                                   (path_length sample_env ?cs))
                                           (remaining_length sample_env (segments sample_env ?cs) i)) of
                       Inl e \<Rightarrow> Inl e
                     | Inr d \<Rightarrow>
                         Inr (Some \<lparr> step_start_location = \<lparr> lat = fst (?cs ! i), lng = snd (?cs ! i) \<rparr>,
                                     step_end_location = \<lparr> lat = fst (last ?cs), lng = snd (last ?cs) \<rparr>,
                                     step_distance = d,
                                     step_duration = None,
                                     step_polyline = encode sample_env (drop i ?cs) \<rparr>))"
    by auto
  from u nf have i: "i = 1" by simp
  from r have left: "calculate_left_step sample_env (route_steps sample_route ! 0) (loc 4 0) =
       Inr (Some \<lparr> step_start_location = \<lparr> lat = Fin 4, lng = Fin 0 \<rparr>,
                    step_end_location = \<lparr> lat = Fin 4, lng = Fin 4 \<rparr>,
                    step_distance = 400,
                    step_duration = None,
                    step_polyline = ''_glW??_glW'' \<rparr>)"
    unfolding i pl rl sd enc by (simp add: g d)
  from C4_left_step [OF hollow_decode ord fin0]
  have "calculate_left_step sample_env hollow_step (loc 4 0) = Inr None" by simp
  with nf pl rl d left hollow_decode show ?thesis by simp
qed

text \<open>
  The claim as stated fails. For the vertices (0,0), (1,0), (1,0) and an object at (1,0)
  the located vertex is at index 1 of 3, the distance is 100 and the polyline length 1,
  yet the result is \<open>None\<close>: the remaining length is 0. For the vertices
  (0,0), (1,0), (0,0) and an object at (0,0) the located vertex is at index 0 and has the
  coordinates of the last vertex, and a partial step is returned.
\<close>

theorem C4_counterexample:
  "calculate_left_step sample_env dup_step (loc 1 0) = Inr None
   \<and> decode sample_env (step_polyline dup_step) = [(Fin 0, Fin 0), (Fin 1, Fin 0), (Fin 1, Fin 0)]
   \<and> locate_coordinate sample_env (decode sample_env (step_polyline dup_step)) (loc 1 0) = (Some 1, Fin 0)
   \<and> step_distance dup_step = 100
   \<and> snd (calculate_sector_lengths sample_env (decode sample_env (step_polyline dup_step))) = Fin 1
   \<and> calculate_left_step sample_env loop_step (loc 0 0) =
       Inr (Some \<lparr> step_start_location = \<lparr> lat = Fin 0, lng = Fin 0 \<rparr>,
                    step_end_location = \<lparr> lat = Fin 0, lng = Fin 0 \<rparr>,
                    step_distance = 100,
                    step_duration = None,
                    step_polyline = ''??_ibE?~hbE?'' \<rparr>)
   \<and> decode sample_env (step_polyline loop_step) = [(Fin 0, Fin 0), (Fin 1, Fin 0), (Fin 0, Fin 0)]
   \<and> locate_coordinate sample_env (decode sample_env (step_polyline loop_step)) (loc 0 0) = (Some 0, Fin 0)"
  by (simp add: eval_defs dup_step_def loop_step_def calculate_left_step_def locate_coordinate_def)

section \<open>Properties: nearest step\<close>

lemma locate_coordinate_loop_min:
  assumes "ordered_on E D"
    and "vertex_distance E c v0 \<in> D"
    and "\<forall>w\<in>set cs. vertex_distance E c w \<in> D"
    and "\<forall>w\<in>S. vertex_distance E c w \<in> D \<and> \<not> f_lt E (vertex_distance E c w) (vertex_distance E c v0)"
  shows "\<exists>k v. locate_coordinate_loop E c ind cs (Some k0, vertex_distance E c v0)
                 = (Some k, vertex_distance E c v)
           \<and> (v = v0 \<or> v \<in> set cs)
           \<and> (\<forall>w\<in>S \<union> set cs. \<not> f_lt E (vertex_distance E c w) (vertex_distance E c v))"
  using assms(2-)
proof (induction cs arbitrary: ind k0 v0 S)
  case Nil
  then have "locate_coordinate_loop E c ind [] (Some k0, vertex_distance E c v0)
                 = (Some k0, vertex_distance E c v0)
           \<and> (v0 = v0 \<or> v0 \<in> set [])
           \<and> (\<forall>w\<in>S \<union> set []. \<not> f_lt E (vertex_distance E c w) (vertex_distance E c v0))"
    by simp
  then show ?case by blast
next
  case (Cons x cs)
  let ?d = "vertex_distance E c"
  from Cons.prems have xD: "?d x \<in> D" and csD: "\<forall>w\<in>set cs. ?d w \<in> D" by simp_all
  from assms(1) xD have irr: "\<not> f_lt E (?d x) (?d x)" by (rule ordered_on_irrefl)
  show ?case
  proof (cases "f_lt E (?d x) (?d v0)")
    case True
    have S': "\<forall>w\<in>insert x S. ?d w \<in> D \<and> \<not> f_lt E (?d w) (?d x)"
    proof
      fix w assume "w \<in> insert x S"
      then show "?d w \<in> D \<and> \<not> f_lt E (?d w) (?d x)"
      proof
        assume "w = x" with xD irr show ?thesis by simp
      next
        assume w: "w \<in> S"
        with Cons.prems(3) have wD: "?d w \<in> D" and nw: "\<not> f_lt E (?d w) (?d v0)" by simp_all
        have "\<not> f_lt E (?d w) (?d x)"
        proof
          assume "f_lt E (?d w) (?d x)"
          from ordered_on_trans [OF assms(1) wD xD Cons.prems(1) this True]
          have "f_lt E (?d w) (?d v0)" .
          with nw show False by simp
        qed
        with wD show ?thesis by simp
      qed
    qed
    from Cons.IH [OF xD csD S', of "Suc ind" ind] True show ?thesis
      unfolding locate_coordinate_loop_Cons by fastforce
  next
    case False
    have S': "\<forall>w\<in>insert x S. ?d w \<in> D \<and> \<not> f_lt E (?d w) (?d v0)"
      using Cons.prems(3) xD False by auto
    from Cons.IH [OF Cons.prems(1) csD S', of "Suc ind" k0] False show ?thesis
      unfolding locate_coordinate_loop_Cons by fastforce
  qed
qed

lemma locate_coordinate_min:
  assumes "ordered_on E D"
    and "\<forall>w\<in>set cs. vertex_distance E c w \<in> D"
    and "\<forall>a\<in>D. f_lt E a (f_inf E)"
    and "cs \<noteq> []"
  shows "\<exists>k v. locate_coordinate E cs c = (Some k, vertex_distance E c v) \<and> v \<in> set cs
           \<and> (\<forall>w\<in>set cs. \<not> f_lt E (vertex_distance E c w) (vertex_distance E c v))"
proof -
  from assms(4) obtain x rest where cs: "cs = x # rest" by (cases cs) auto
  let ?d = "vertex_distance E c"
  from assms(2) cs have xD: "?d x \<in> D" and rD: "\<forall>w\<in>set rest. ?d w \<in> D" by simp_all
  from assms(1) xD have "\<forall>w\<in>{x}. ?d w \<in> D \<and> \<not> f_lt E (?d w) (?d x)"
    by (simp add: ordered_on_irrefl)
  from locate_coordinate_loop_min [OF assms(1) xD rD this, of "Suc 0" 0]
  obtain k v where "locate_coordinate_loop E c (Suc 0) rest (Some 0, ?d x) = (Some k, ?d v)"
    and "v = x \<or> v \<in> set rest" and "\<forall>w\<in>{x} \<union> set rest. \<not> f_lt E (?d w) (?d v)"
    by blast
  moreover from assms(3) xD have "f_lt E (?d x) (f_inf E)" by simp
  ultimately show ?thesis
    unfolding locate_coordinate_def cs locate_coordinate_loop_Cons by fastforce
qed

lemma locate_coordinate_empty: "locate_coordinate E [] c = (None, f_inf E)"
  by (simp add: locate_coordinate_def)

lemma nearest_so_far_step:
  assumes ord: "ordered_on E D"
    and fin: "\<forall>a\<in>D. f_lt E a (f_inf E)"
    and inD: "\<forall>s'\<in>set (seen @ [s]). \<forall>w\<in>set (decode E (step_polyline s')). vertex_distance E c w \<in> D"
    and inv: "nearest_so_far E c seen (si, mm)"
  shows "\<exists>acc'. locate_step_loop E c (length seen) (s # rest) (si, mm)
                  = locate_step_loop E c (Suc (length seen)) rest acc'
               \<and> nearest_so_far E c (seen @ [s]) acc'"
proof (cases "decode E (step_polyline s) = []")
  case True
  then have run: "locate_step_loop E c (length seen) (s # rest) (si, mm)
                  = locate_step_loop E c (Suc (length seen)) rest (si, mm)"
    by (simp add: locate_coordinate_empty)
  from inv True have "nearest_so_far E c (seen @ [s]) (si, mm)"
    unfolding nearest_so_far_def
    by (elim disjE exE conjE) (simp, rule disjI2, auto simp: nth_append)
  with run show ?thesis by blast
next
  case False
  let ?d = "vertex_distance E c"
  let ?cs = "decode E (step_polyline s)"
  from inD have csD: "\<forall>w\<in>set ?cs. ?d w \<in> D" by simp
  from locate_coordinate_min [OF ord csD fin False]
  obtain k u where lc: "locate_coordinate E ?cs c = (Some k, ?d u)" and u: "u \<in> set ?cs"
    and umin: "\<forall>w\<in>set ?cs. \<not> f_lt E (?d w) (?d u)"
    by blast
  from csD u have uD: "?d u \<in> D" by simp
  have new: "nearest_so_far E c (seen @ [s]) (Some (length seen), ?d u)"
    if closer: "\<forall>s'\<in>set seen. \<forall>w\<in>set (decode E (step_polyline s')).
                  \<not> f_lt E (?d w) (?d u) \<and> f_lt E (?d u) (?d w)"
  proof -
    have "\<forall>s'\<in>set (seen @ [s]). \<forall>w\<in>set (decode E (step_polyline s')). \<not> f_lt E (?d w) (?d u)"
      using closer umin by auto
    moreover have "\<forall>j<length seen. \<forall>w\<in>set (decode E (step_polyline ((seen @ [s]) ! j))).
                     f_lt E (?d u) (?d w)"
      using closer by (auto simp: nth_append)
    ultimately show ?thesis
      unfolding nearest_so_far_def using u by (intro disjI2 exI [of _ "length seen"] exI [of _ u]) simp
  qed
  from inv have "(fst (si, mm) = None \<and> snd (si, mm) = f_inf E
        \<and> (\<forall>s\<in>set seen. decode E (step_polyline s) = []))
     \<or> (\<exists>i v. fst (si, mm) = Some i \<and> snd (si, mm) = ?d v \<and> i < length seen
           \<and> v \<in> set (decode E (step_polyline (seen ! i)))
           \<and> (\<forall>s\<in>set seen. \<forall>w\<in>set (decode E (step_polyline s)). \<not> f_lt E (?d w) (?d v))
           \<and> (\<forall>j<i. \<forall>w\<in>set (decode E (step_polyline (seen ! j))). f_lt E (?d v) (?d w)))"
    unfolding nearest_so_far_def .
  then show ?thesis
  proof (elim disjE exE conjE)
    assume none: "fst (si, mm) = None" "snd (si, mm) = f_inf E"
      "\<forall>s\<in>set seen. decode E (step_polyline s) = []"
    with fin uD lc have run: "locate_step_loop E c (length seen) (s # rest) (si, mm)
                  = locate_step_loop E c (Suc (length seen)) rest (Some (length seen), ?d u)"
      by simp
    from none(3) have "\<forall>s'\<in>set seen. \<forall>w\<in>set (decode E (step_polyline s')).
                  \<not> f_lt E (?d w) (?d u) \<and> f_lt E (?d u) (?d w)"
      by simp
    from new [OF this] run show ?thesis by blast
  next
    fix i v
    assume some: "fst (si, mm) = Some i" "snd (si, mm) = ?d v" "i < length seen"
      "v \<in> set (decode E (step_polyline (seen ! i)))"
      "\<forall>s\<in>set seen. \<forall>w\<in>set (decode E (step_polyline s)). \<not> f_lt E (?d w) (?d v)"
      "\<forall>j<i. \<forall>w\<in>set (decode E (step_polyline (seen ! j))). f_lt E (?d v) (?d w)"
    from some(3,4) inD have vD: "?d v \<in> D" by (auto simp: nth_append)
    have seenD: "\<forall>s'\<in>set seen. \<forall>w\<in>set (decode E (step_polyline s')). ?d w \<in> D"
      using inD by simp
    show ?thesis
    proof (cases "f_lt E (?d u) (?d v)")
      case True
      with some(1,2) lc have run: "locate_step_loop E c (length seen) (s # rest) (si, mm)
                  = locate_step_loop E c (Suc (length seen)) rest (Some (length seen), ?d u)"
        by simp
      have "\<forall>s'\<in>set seen. \<forall>w\<in>set (decode E (step_polyline s')).
                  \<not> f_lt E (?d w) (?d u) \<and> f_lt E (?d u) (?d w)"
      proof (intro ballI)
        fix s' w assume "s' \<in> set seen" "w \<in> set (decode E (step_polyline s'))"
        with some(5) seenD have wD: "?d w \<in> D" and nw: "\<not> f_lt E (?d w) (?d v)" by simp_all
        have "\<not> f_lt E (?d w) (?d u)"
          using ordered_on_trans [OF ord wD uD vD] True nw by blast
        moreover have "f_lt E (?d u) (?d w)"
          using ordered_on_neg_trans [OF ord uD wD vD] True nw by blast
        ultimately show "\<not> f_lt E (?d w) (?d u) \<and> f_lt E (?d u) (?d w)" ..
      qed
      from new [OF this] run show ?thesis by blast
    next
      case False
      with some(1,2) lc have run: "locate_step_loop E c (length seen) (s # rest) (si, mm)
                  = locate_step_loop E c (Suc (length seen)) rest (si, mm)"
        by simp
      have "\<forall>w\<in>set ?cs. \<not> f_lt E (?d w) (?d v)"
      proof
        fix w assume w: "w \<in> set ?cs"
        with csD umin have wD: "?d w \<in> D" and nw: "\<not> f_lt E (?d w) (?d u)" by simp_all
        from ordered_on_neg_trans [OF ord wD uD vD nw False]
        show "\<not> f_lt E (?d w) (?d v)" .
      qed
      with some have "nearest_so_far E c (seen @ [s]) (si, mm)"
        unfolding nearest_so_far_def
        by (intro disjI2 exI [of _ i] exI [of _ v]) (auto simp: nth_append)
      with run show ?thesis by blast
    qed
  qed
qed

lemma locate_step_loop_inv:
  assumes ord: "ordered_on E D"
    and fin: "\<forall>a\<in>D. f_lt E a (f_inf E)"
  shows "\<forall>s'\<in>set (seen @ todo). \<forall>w\<in>set (decode E (step_polyline s')). vertex_distance E c w \<in> D \<Longrightarrow>
    nearest_so_far E c seen (si, mm) \<Longrightarrow>
    nearest_so_far E c (seen @ todo) (locate_step_loop E c (length seen) todo (si, mm))"
proof (induction todo arbitrary: seen si mm)
  case Nil
  then show ?case by simp
next
  case (Cons s todo)
  from Cons.prems(1)
  have "\<forall>s'\<in>set (seen @ [s]). \<forall>w\<in>set (decode E (step_polyline s')). vertex_distance E c w \<in> D"
    by auto
  from nearest_so_far_step [OF ord fin this Cons.prems(2), of todo]
  obtain acc' where run: "locate_step_loop E c (length seen) (s # todo) (si, mm)
                  = locate_step_loop E c (Suc (length seen)) todo acc'"
    and inv: "nearest_so_far E c (seen @ [s]) acc'"
    by blast
  obtain si' mm' where acc': "acc' = (si', mm')" by (cases acc')
  from Cons.IH [of "seen @ [s]" si' mm'] Cons.prems(1) inv
  have "nearest_so_far E c ((seen @ [s]) @ todo)
          (locate_step_loop E c (length (seen @ [s])) todo (si', mm'))"
    by (simp add: acc')
  with run acc' show ?case by simp
qed

text \<open>
  C5: where the computed distances are ordered by \<open><\<close> and below \<open>inf\<close> (no NaN),
  \<open>locate_step\<close> returns the index of a step holding a vertex that no vertex of any
  step is closer than, every vertex of an earlier step being strictly farther; it
  returns \<open>None\<close> exactly when no step has a vertex, so for the empty step list.
\<close>

theorem C5_locate_step:
  assumes ord: "ordered_on E (all_distances E steps coordinate)"
    and fin: "\<forall>a\<in>all_distances E steps coordinate. f_lt E a (f_inf E)"
  shows "(steps = [] \<longrightarrow> locate_step E steps coordinate = None)
       \<and> (locate_step E steps coordinate = None \<longleftrightarrow>
            (\<forall>s\<in>set steps. decode E (step_polyline s) = []))
       \<and> (\<forall>i. locate_step E steps coordinate = Some i \<longrightarrow>
            i < length steps
            \<and> (\<exists>v\<in>set (decode E (step_polyline (steps ! i))).
                 (\<forall>s\<in>set steps. \<forall>w\<in>set (decode E (step_polyline s)).
                     \<not> f_lt E (vertex_distance E coordinate w) (vertex_distance E coordinate v))
                 \<and> (\<forall>j<i. \<forall>w\<in>set (decode E (step_polyline (steps ! j))).
                     f_lt E (vertex_distance E coordinate v) (vertex_distance E coordinate w))))"
proof -
  have D: "\<forall>s'\<in>set ([] @ steps). \<forall>w\<in>set (decode E (step_polyline s')).
             vertex_distance E coordinate w \<in> all_distances E steps coordinate"
    by (auto simp: all_distances_def)
  have "nearest_so_far E coordinate [] (None, f_inf E)"
    by (simp add: nearest_so_far_def)
  from locate_step_loop_inv [OF ord fin D this]
  have inv: "nearest_so_far E coordinate steps (locate_step_loop E coordinate 0 steps (None, f_inf E))"
    by simp
  have a: "steps = [] \<longrightarrow> locate_step E steps coordinate = None"
    by (simp add: locate_step_def)
  let ?r = "locate_step_loop E coordinate 0 steps (None, f_inf E)"
  let ?d = "vertex_distance E coordinate"
  from inv have cases: "(fst ?r = None \<and> (\<forall>s\<in>set steps. decode E (step_polyline s) = []))
     \<or> (\<exists>i v. fst ?r = Some i \<and> i < length steps
           \<and> v \<in> set (decode E (step_polyline (steps ! i)))
           \<and> (\<forall>s\<in>set steps. \<forall>w\<in>set (decode E (step_polyline s)). \<not> f_lt E (?d w) (?d v))
           \<and> (\<forall>j<i. \<forall>w\<in>set (decode E (step_polyline (steps ! j))). f_lt E (?d v) (?d w)))"
    unfolding nearest_so_far_def by blast
  have b: "locate_step E steps coordinate = None \<longleftrightarrow>
            (\<forall>s\<in>set steps. decode E (step_polyline s) = [])"
  proof
    assume n: "locate_step E steps coordinate = None"
    with cases show "\<forall>s\<in>set steps. decode E (step_polyline s) = []"
      unfolding locate_step_def by auto
  next
    assume e: "\<forall>s\<in>set steps. decode E (step_polyline s) = []"
    show "locate_step E steps coordinate = None"
    proof (rule ccontr)
      assume "locate_step E steps coordinate \<noteq> None"
      with cases obtain i v where "i < length steps"
        "v \<in> set (decode E (step_polyline (steps ! i)))"
        unfolding locate_step_def by auto
      with e show False using nth_mem [of i steps] by auto
    qed
  qed
  have c: "\<forall>i. locate_step E steps coordinate = Some i \<longrightarrow>
            i < length steps
            \<and> (\<exists>v\<in>set (decode E (step_polyline (steps ! i))).
                 (\<forall>s\<in>set steps. \<forall>w\<in>set (decode E (step_polyline s)).
                     \<not> f_lt E (vertex_distance E coordinate w) (vertex_distance E coordinate v))
                 \<and> (\<forall>j<i. \<forall>w\<in>set (decode E (step_polyline (steps ! j))).
                     f_lt E (vertex_distance E coordinate v) (vertex_distance E coordinate w)))"
  proof (intro allI impI)
    fix i assume "locate_step E steps coordinate = Some i"
    then have "fst ?r = Some i" by (simp add: locate_step_def)
    with cases obtain v where "i < length steps"
        "v \<in> set (decode E (step_polyline (steps ! i)))"
        "\<forall>s\<in>set steps. \<forall>w\<in>set (decode E (step_polyline s)). \<not> f_lt E (?d w) (?d v)"
        "\<forall>j<i. \<forall>w\<in>set (decode E (step_polyline (steps ! j))). f_lt E (?d v) (?d w)"
      by auto
    then show "i < length steps
            \<and> (\<exists>v\<in>set (decode E (step_polyline (steps ! i))).
                 (\<forall>s\<in>set steps. \<forall>w\<in>set (decode E (step_polyline s)).
                     \<not> f_lt E (vertex_distance E coordinate w) (vertex_distance E coordinate v))
                 \<and> (\<forall>j<i. \<forall>w\<in>set (decode E (step_polyline (steps ! j))).
                     f_lt E (vertex_distance E coordinate v) (vertex_distance E coordinate w)))"
      by blast
  qed
  from a b c show ?thesis by blast
qed

lemma sqrt_64: "sqrt 64 = 8"
  using real_sqrt_abs [of 8] by simp

lemma sample_all_distances:
  "all_distances sample_env (route_steps sample_route) (loc 4 0) = {Fin 4, Fin 0, Fin 8}"
  by (simp add: all_distances_def vertex_distance_def eval_defs sqrt_64 insert_commute)

theorem C5_locate_step_witness:
  "locate_step sample_env (route_steps sample_route) (loc 4 0) = Some 0
   \<and> (\<exists>v\<in>set (decode sample_env (step_polyline (route_steps sample_route ! 0))).
        list_all (\<lambda>s. list_all (\<lambda>w. \<not> f_lt sample_env (vertex_distance sample_env (loc 4 0) w)
                                            (vertex_distance sample_env (loc 4 0) v))
                          (decode sample_env (step_polyline s)))
          (route_steps sample_route))"
proof -
  have ord: "ordered_on sample_env (all_distances sample_env (route_steps sample_route) (loc 4 0))"
    unfolding sample_env_def by (rule x_lt_ordered)
  have fin: "\<forall>a\<in>all_distances sample_env (route_steps sample_route) (loc 4 0).
               f_lt sample_env a (f_inf sample_env)"
    unfolding sample_all_distances by (simp add: sample_env_def exact_env_def)
  note inst = C5_locate_step [OF ord fin, THEN conjunct2, THEN conjunct2, rule_format,
      OF sample_locate_step, THEN conjunct2]
  then obtain v where v: "v \<in> set (decode sample_env (step_polyline (route_steps sample_route ! 0)))"
    and least: "\<forall>s\<in>set (route_steps sample_route). \<forall>w\<in>set (decode sample_env (step_polyline s)).
              \<not> f_lt sample_env (vertex_distance sample_env (loc 4 0) w)
                                 (vertex_distance sample_env (loc 4 0) v)"
    by blast
  from least have "list_all (\<lambda>s. list_all (\<lambda>w. \<not> f_lt sample_env (vertex_distance sample_env (loc 4 0) w)
                                            (vertex_distance sample_env (loc 4 0) v))
                          (decode sample_env (step_polyline s)))
          (route_steps sample_route)"
    unfolding list_all_iff .
  with v sample_locate_step show ?thesis by blast
qed

section \<open>Properties: the route argument is not changed\<close>

lemma frame_refl: "frame h h"
  by (simp add: frame_def)

lemma frame_trans: "frame h h1 \<Longrightarrow> frame h1 h2 \<Longrightarrow> frame h h2"
  by (auto simp: frame_def)

lemma frame_alloc: "alloc h ob = (h', a) \<Longrightarrow> frame h h' \<and> a = length h \<and> length h' = Suc (length h)"
  by (auto simp: alloc_def frame_def nth_append)

lemma frame_update_fresh: "length h \<le> a \<Longrightarrow> frame h h1 \<Longrightarrow> frame h (h1[a := ob])"
  by (auto simp: frame_def)

lemma frame_load: "frame h h' \<Longrightarrow> load h a = Inr ob \<Longrightarrow> load h' a = Inr ob"
  by (auto simp: frame_def load_def split: if_splits)

lemma frame_load_list: "frame h h' \<Longrightarrow> load_list h a = Inr refs \<Longrightarrow> load_list h' a = Inr refs"
  by (auto simp: load_list_def dest: frame_load split: sum.splits obj.splits)

lemma frame_load_steps: "frame h h' \<Longrightarrow> load_steps h refs = Inr steps \<Longrightarrow> load_steps h' refs = Inr steps"
proof (induction refs arbitrary: steps)
  case Nil
  then show ?case by simp
next
  case (Cons a refs)
  from Cons.prems(2) obtain step rest where l: "load h a = Inr (StepObj step)"
    and r: "load_steps h refs = Inr rest" and s: "steps = step # rest"
    by (auto split: sum.splits obj.splits)
  from frame_load [OF Cons.prems(1) l] Cons.IH [OF Cons.prems(1) r] s show ?case by simp
qed

lemma frame_steps_ref_of: "frame h h' \<Longrightarrow> steps_ref_of h r = Inr la \<Longrightarrow> steps_ref_of h' r = Inr la"
  by (auto simp: steps_ref_of_def dest: frame_load split: sum.splits obj.splits)

lemma frame_steps_of:
  assumes "frame h h'" and "steps_of h r = Inr steps"
  shows "steps_of h' r = Inr steps"
proof -
  from assms(2) obtain la refs where "steps_ref_of h r = Inr la" "load_list h la = Inr refs"
    "load_steps h refs = Inr steps"
    by (auto simp: steps_of_def split: sum.splits)
  with assms(1) have "steps_ref_of h' r = Inr la" "load_list h' la = Inr refs"
    "load_steps h' refs = Inr steps"
    by (simp_all add: frame_steps_ref_of frame_load_list frame_load_steps)
  then show ?thesis by (simp add: steps_of_def)
qed

lemma frame_end_location_of:
  "frame h h' \<Longrightarrow> end_location_of h r = Inr el \<Longrightarrow> end_location_of h' r = Inr el"
  by (auto simp: end_location_of_def dest: frame_load split: sum.splits obj.splits)

lemma calculate_left_step_st_frame:
  "calculate_left_step_st E h step c = Inr (left_ref, h1) \<Longrightarrow> frame h h1"
  by (auto simp: calculate_left_step_st_def Let_def frame_refl dest: frame_alloc
      split: sum.splits option.splits prod.splits)

lemma build_left_route_frame:
  assumes "build_left_route h route step_ind left_ref = Inr (reduced, h')"
  shows "frame h h'"
proof -
  from assms obtain la refs where "steps_ref_of h route = Inr la" "load_list h la = Inr refs"
    by (auto simp: build_left_route_def split: sum.splits)
  obtain h1 sliced where a1: "alloc h (ListObj (drop (step_ind + 1) refs)) = (h1, sliced)"
    by (cases "alloc h (ListObj (drop (step_ind + 1) refs))")
  obtain h2 lr where a2: "alloc h1 (DictObj sliced) = (h2, lr)"
    by (cases "alloc h1 (DictObj sliced)")
  from frame_alloc [OF a1] frame_alloc [OF a2]
  have f2: "frame h h2" and sl: "sliced = length h" and lr: "lr = length h1"
    and len: "length h1 = Suc (length h)" "length h2 = Suc (length h1)"
    by (auto intro: frame_trans)
  have ref: "steps_ref_of h2 lr = Inr sliced"
    using a2 lr by (auto simp: steps_ref_of_def load_def alloc_def nth_append)
  show ?thesis
  proof (cases left_ref)
    case None
    with assms \<open>steps_ref_of h route = Inr la\<close> \<open>load_list h la = Inr refs\<close> a1 a2 f2
    show ?thesis by (simp add: build_left_route_def)
  next
    case (Some a)
    with assms \<open>steps_ref_of h route = Inr la\<close> \<open>load_list h la = Inr refs\<close> a1 a2 ref
    obtain xs where "h' = h2[sliced := ListObj xs]"
      by (auto simp: build_left_route_def list_insert_front_def split: sum.splits)
    with f2 sl show ?thesis by (simp add: frame_update_fresh)
  qed
qed

lemma get_point_on_route_st_frame:
  assumes "get_point_on_route_st E h route c distance time speed = Inr (res, h')"
  shows "frame h h'"
proof -
  from assms obtain steps where st: "steps_of h route = Inr steps"
    by (auto simp: get_point_on_route_st_def split: sum.splits)
  show ?thesis
  proof (cases "locate_step E steps c")
    case None
    with assms st show ?thesis
      by (auto simp: get_point_on_route_st_def frame_refl split: sum.splits)
  next
    case (Some i)
    with assms st obtain left_ref h1 lr h2 where
      "calculate_left_step_st E h (steps ! i) c = Inr (left_ref, h1)"
      "build_left_route h1 route i left_ref = Inr (lr, h2)" "h' = h2"
      by (auto simp: get_point_on_route_st_def split: sum.splits if_splits)
    with calculate_left_step_st_frame build_left_route_frame show ?thesis
      by (blast intro: frame_trans)
  qed
qed

lemma load_steps_drop:
  "load_steps h refs = Inr steps \<Longrightarrow> load_steps h (drop n refs) = Inr (drop n steps)"
proof (induction refs arbitrary: steps n)
  case Nil
  then show ?case by simp
next
  case (Cons a refs)
  from Cons.prems obtain step rest where l: "load h a = Inr (StepObj step)"
    and r: "load_steps h refs = Inr rest" and s: "steps = step # rest"
    by (auto split: sum.splits obj.splits)
  show ?case
  proof (cases n)
    case 0
    with Cons.prems show ?thesis by simp
  next
    case (Suc m)
    with Cons.IH [OF r, of m] s show ?thesis by simp
  qed
qed

lemma build_left_route_steps:
  assumes st: "steps_of h r = Inr steps"
    and cl: "calculate_left_step E step c = Inr left"
  shows "\<exists>left_ref h1 reduced h2.
           calculate_left_step_st E h step c = Inr (left_ref, h1)
         \<and> build_left_route h1 r i left_ref = Inr (reduced, h2)
         \<and> steps_of h2 reduced =
             Inr (case left of None \<Rightarrow> drop (i + 1) steps | Some ls \<Rightarrow> ls # drop (i + 1) steps)"
proof -
  from st obtain la refs where ref: "steps_ref_of h r = Inr la" and ll: "load_list h la = Inr refs"
    and ls: "load_steps h refs = Inr steps"
    by (auto simp: steps_of_def split: sum.splits)
  define h1 where "h1 = (case left of None \<Rightarrow> h | Some x \<Rightarrow> h @ [StepObj x])"
  define left_ref where "left_ref = (case left of None \<Rightarrow> None | Some x \<Rightarrow> Some (length h))"
  have c1: "calculate_left_step_st E h step c = Inr (left_ref, h1)"
    using cl by (simp add: calculate_left_step_st_def alloc_def h1_def left_ref_def split: option.splits)
  from calculate_left_step_st_frame [OF c1] have f1: "frame h h1" .
  define ha where "ha = h1 @ [ListObj (drop (Suc i) refs)]"
  define h2 where "h2 = ha @ [DictObj (length h1)]"
  have a1: "alloc h1 (ListObj (drop (Suc i) refs)) = (ha, length h1)"
    by (simp add: alloc_def ha_def)
  have a2: "alloc ha (DictObj (length h1)) = (h2, Suc (length h1))"
    by (simp add: alloc_def h2_def ha_def)
  have f2: "frame h1 h2" by (auto simp: frame_def h2_def ha_def nth_append)
  have f02: "frame h h2" using f1 f2 by (rule frame_trans)
  have ref1: "steps_ref_of h1 r = Inr la" and ll1: "load_list h1 la = Inr refs"
    using f1 ref ll by (simp_all add: frame_steps_ref_of frame_load_list)
  have sref: "steps_ref_of h2 (Suc (length h1)) = Inr (length h1)"
    by (simp add: steps_ref_of_def load_def h2_def ha_def nth_append)
  have sl: "load_list h2 (length h1) = Inr (drop (Suc i) refs)"
    by (simp add: load_list_def load_def h2_def ha_def nth_append)
  have rest2: "load_steps h2 (drop (Suc i) refs) = Inr (drop (Suc i) steps)"
    using frame_load_steps [OF f02 load_steps_drop [OF ls]] .
  show ?thesis
  proof (cases left)
    case None
    then have b: "build_left_route h1 r i left_ref = Inr (Suc (length h1), h2)"
      by (simp add: build_left_route_def ref1 ll1 a1 a2 left_ref_def)
    have "steps_of h2 (Suc (length h1)) = Inr (drop (Suc i) steps)"
      using sref sl rest2 by (simp add: steps_of_def)
    with c1 b None show ?thesis by auto
  next
    case (Some x)
    define h3 where "h3 = h2[length h1 := ListObj (length h # drop (Suc i) refs)]"
    from Some have lh1: "length h1 = Suc (length h)" and lr: "left_ref = Some (length h)"
      by (simp_all add: h1_def left_ref_def)
    have lif: "list_insert_front h2 (length h1) (length h) = Inr h3"
      using sl by (simp add: list_insert_front_def h3_def)
    have b: "build_left_route h1 r i left_ref = Inr (Suc (length h1), h3)"
      by (simp add: build_left_route_def ref1 ll1 a1 a2 lr sref lif)
    have len2: "length h2 = Suc (Suc (length h1))" by (simp add: h2_def ha_def)
    have f03: "frame h h3"
      unfolding h3_def using f02 lh1 by (intro frame_update_fresh) simp_all
    have sref3: "steps_ref_of h3 (Suc (length h1)) = Inr (length h1)"
      using sref len2 by (simp add: steps_ref_of_def load_def h3_def)
    have sl3: "load_list h3 (length h1) = Inr (length h # drop (Suc i) refs)"
      using len2 by (simp add: load_list_def load_def h3_def)
    have "h1 ! length h = StepObj x" using Some by (simp add: h1_def)
    then have "h3 ! length h = StepObj x"
      using lh1 by (simp add: h3_def h2_def ha_def nth_append)
    then have la: "load h3 (length h) = Inr (StepObj x)"
      using len2 lh1 by (simp add: load_def h3_def)
    have rest3: "load_steps h3 (drop (Suc i) refs) = Inr (drop (Suc i) steps)"
      using frame_load_steps [OF f03 load_steps_drop [OF ls]] .
    have "steps_of h3 (Suc (length h1)) = Inr (x # drop (Suc i) steps)"
      using sref3 sl3 la rest3 by (simp add: steps_of_def)
    with c1 b Some show ?thesis by auto
  qed
qed

lemma get_point_on_route_st_result:
  assumes st: "steps_of h r = Inr (route_steps route)"
    and el: "end_location_of h r = Inr (route_end_location route)"
  shows "map_sum id fst (get_point_on_route_st E h r c distance time speed)
           = get_point_on_route E route c distance time speed"
proof (cases "case distance of None \<Rightarrow> (case (time, speed) of (Some t, Some v) \<Rightarrow> Inr (t * v)
                       | _ \<Rightarrow> Inl TypeError) | Some d \<Rightarrow> (Inr d :: error + int)")
  case (Inl e)
  then show ?thesis by (simp add: get_point_on_route_st_def get_point_on_route_def)
next
  case (Inr d)
  note d = this
  show ?thesis
  proof (cases "locate_step E (route_steps route) c")
    case None
    with d st show ?thesis by (simp add: get_point_on_route_st_def get_point_on_route_def)
  next
    case (Some i)
    show ?thesis
    proof (cases "calculate_left_step E (route_steps route ! i) c")
      case (Inl e)
      with d st Some show ?thesis
        by (simp add: get_point_on_route_st_def get_point_on_route_def calculate_left_step_st_def)
    next
      case (Inr left)
      from build_left_route_steps [OF st Inr, of i]
      obtain left_ref h1 reduced h2 where
        c1: "calculate_left_step_st E h (route_steps route ! i) c = Inr (left_ref, h1)"
        and b: "build_left_route h1 r i left_ref = Inr (reduced, h2)"
        and s2: "steps_of h2 reduced =
             Inr (case left of None \<Rightarrow> drop (i + 1) (route_steps route)
                  | Some ls \<Rightarrow> ls # drop (i + 1) (route_steps route))"
        by blast
      have "frame h h2"
        using calculate_left_step_st_frame [OF c1] build_left_route_frame [OF b]
        by (rule frame_trans)
      from frame_end_location_of [OF this el]
      have e2: "end_location_of h2 r = Inr (route_end_location route)" .
      have lr: "left_route (route_steps route) i left ''steps'' =
          Some (case left of None \<Rightarrow> drop (i + 1) (route_steps route)
                  | Some ls \<Rightarrow> ls # drop (i + 1) (route_steps route))"
        by (simp add: left_route_def)
      show ?thesis
        unfolding get_point_on_route_st_def get_point_on_route_def
        by (simp add: d st Some Inr c1 b s2 e2 lr split: sum.splits prod.splits)
    qed
  qed
qed

lemma get_stop_points_st_result:
  assumes "steps_of h r = Inr (route_steps route)"
  shows "map_sum id fst (get_stop_points_st E h r spacing start_offset only_first)
           = get_stop_points E route spacing start_offset only_first"
  using assms by (simp add: get_stop_points_st_def get_stop_points_def split: sum.splits prod.splits)

lemma sample_heap_steps: "steps_of sample_heap 0 = Inr sample_steps"
  by (simp add: steps_of_def steps_ref_of_def load_list_def load_def sample_heap_def sample_steps_def)

lemma sample_heap_projection:
  "get_point_on_route_st sample_env sample_heap 0 (loc 4 0) (Some 1000) None None =
     Inr ((Some \<lparr> point_lat = Fin 4, point_lng = Fin 8, point_distance = 800 \<rparr>, True),
          sample_heap_after)"
  apply (simp add: get_point_on_route_st_def sample_heap_steps)
  apply (simp add: eval_defs locate_step_def locate_coordinate_def calculate_left_step_st_def calculate_left_step_def alloc_def)
  apply (simp add: build_left_route_def sample_heap_def steps_ref_of_def load_def load_list_def alloc_def list_insert_front_def steps_of_def)
  apply (simp add: eval_defs end_location_of_def load_def sample_heap_after_def sample_heap_def)
  done

lemma sample_heap_stop_points:
  "get_stop_points_st sample_env sample_heap 0 200 0 False =
     Inr ([\<lparr>point_lat = Fin 0, point_lng = Fin 0, point_distance = 200\<rparr>,
           \<lparr>point_lat = Fin 4, point_lng = Fin 0, point_distance = 400\<rparr>,
           \<lparr>point_lat = Fin 4, point_lng = Fin 4, point_distance = 1000\<rparr>], sample_heap)"
  by (simp add: get_stop_points_st_def sample_heap_steps sample_stop_points_all)

lemma sample_heap_end_location: "end_location_of sample_heap 0 = Inr (loc 4 8)"
  by (simp add: end_location_of_def load_def sample_heap_def)

text \<open>
  C9: \<open>get_stop_points\<close> leaves the store as it is. \<open>get_point_on_route\<close> only
  allocates: every object of the store before the call, so the route dictionary, its
  list of steps and every step in it, is unchanged after it, and the steps and end
  location read from the route are the same. (The results of the operations on the
  store are those of the operations on values: \<open>get_stop_points_st_result\<close>,
  \<open>get_point_on_route_st_result\<close>.)
\<close>

theorem C9_route_not_mutated:
  "(get_stop_points_st E h route spacing start_offset only_first = Inr (pts, h') \<longrightarrow> h' = h)
   \<and> (get_point_on_route_st E h route coordinate distance time speed = Inr (res, h'') \<longrightarrow>
        length h \<le> length h'' \<and> (\<forall>a<length h. h'' ! a = h ! a)
        \<and> (\<forall>steps. steps_of h route = Inr steps \<longrightarrow> steps_of h'' route = Inr steps)
        \<and> (\<forall>e. end_location_of h route = Inr e \<longrightarrow> end_location_of h'' route = Inr e))"
proof -
  have a: "get_stop_points_st E h route spacing start_offset only_first = Inr (pts, h') \<longrightarrow> h' = h"
    by (auto simp: get_stop_points_st_def split: sum.splits)
  have b: "get_point_on_route_st E h route coordinate distance time speed = Inr (res, h'') \<longrightarrow>
        length h \<le> length h'' \<and> (\<forall>a<length h. h'' ! a = h ! a)
        \<and> (\<forall>steps. steps_of h route = Inr steps \<longrightarrow> steps_of h'' route = Inr steps)
        \<and> (\<forall>e. end_location_of h route = Inr e \<longrightarrow> end_location_of h'' route = Inr e)"
  proof
    assume "get_point_on_route_st E h route coordinate distance time speed = Inr (res, h'')"
    then have f: "frame h h''" by (rule get_point_on_route_st_frame)
    then have "length h \<le> length h'' \<and> (\<forall>a<length h. h'' ! a = h ! a)"
      by (simp add: frame_def)
    with f show "length h \<le> length h'' \<and> (\<forall>a<length h. h'' ! a = h ! a)
        \<and> (\<forall>steps. steps_of h route = Inr steps \<longrightarrow> steps_of h'' route = Inr steps)
        \<and> (\<forall>e. end_location_of h route = Inr e \<longrightarrow> end_location_of h'' route = Inr e)"
      using frame_steps_of frame_end_location_of by blast
  qed
  from a b show ?thesis ..
qed

theorem C9_route_not_mutated_witness:
  "get_stop_points_st sample_env sample_heap 0 200 0 False =
     Inr ([\<lparr>point_lat = Fin 0, point_lng = Fin 0, point_distance = 200\<rparr>,
           \<lparr>point_lat = Fin 4, point_lng = Fin 0, point_distance = 400\<rparr>,
           \<lparr>point_lat = Fin 4, point_lng = Fin 4, point_distance = 1000\<rparr>], sample_heap)
   \<and> get_point_on_route_st sample_env sample_heap 0 (loc 4 0) (Some 1000) None None =
     Inr ((Some \<lparr> point_lat = Fin 4, point_lng = Fin 8, point_distance = 800 \<rparr>, True),
          sample_heap_after)
   \<and> length sample_heap \<le> length sample_heap_after
   \<and> steps_of sample_heap 0 = Inr sample_steps
   \<and> steps_of sample_heap_after 0 = Inr sample_steps
   \<and> end_location_of sample_heap_after 0 = Inr (loc 4 8)"
proof -
  note inst = C9_route_not_mutated [of sample_env sample_heap 0 200 0 False _ sample_heap
      "loc 4 0" "Some 1000" None None _ sample_heap_after, THEN conjunct2, rule_format,
      OF sample_heap_projection]
  from inst have "length sample_heap \<le> length sample_heap_after" by (rule conjunct1)
  moreover from inst sample_heap_steps have "steps_of sample_heap_after 0 = Inr sample_steps"
    by blast
  moreover from inst sample_heap_end_location
  have "end_location_of sample_heap_after 0 = Inr (loc 4 8)"
    by blast
  ultimately show ?thesis
    using sample_heap_stop_points sample_heap_projection sample_heap_steps by simp
qed

section \<open>Properties: order of the recorded distances\<close>
















end
